theory Spec2Isabelle
  imports Complex_Main
begin

section \<open>Real-time audio capture: data model\<close>

text \<open>
  The development embeds the class \<open>RealTimeAudioCapture\<close>: its per-frame path
  (\<open>onaudioprocess\<close>, \<open>processAudioChunk\<close>, \<open>calculateAudioLevel\<close>, \<open>performVAD\<close>),
  the flush \<open>sendBufferedAudio\<close>, and the lifecycle operations \<open>stopRecording\<close> and
  \<open>cleanup\<close>.

  Conventions of the embedding.
  \<^item> A \<open>Float32Array\<close> is a list of reals, and the numbers a session stores (history,
    noise estimate, options) are reals: samples and stored numbers are finite, and
    rounding is not modelled. On such a session the code leaves the finite numbers only
    for an empty frame (\<open>0 / 0\<close>) and for a \<open>vadThreshold\<close> that is not positive; the
    real-valued \<open>performVAD\<close> below is the code for non-empty frames and a positive
    \<open>vadThreshold\<close>, and \<open>performVAD_js\<close> gives its result with \<open>NaN\<close> and the
    infinities for every frame and threshold.
  \<^item> Counters and sample counts are natural numbers.
  \<^item> The object is mutated in place, so every operation returns the session it leaves
    behind together with its outcome: \<open>Returned\<close>, or \<open>Raised e\<close> when an exception
    leaves the operation (the session keeps the mutations made before the throw).
  \<^item> A listener is an optional function from its argument to an outcome: it either
    returns or throws. What a listener does with its argument is outside the class; the
    ghost field \<open>events\<close> records every listener invocation and every device release, in
    order.
  \<^item> \<open>console.log\<close> output (including the randomly sampled debug line of
    \<open>processAudioChunk\<close>) has no effect on the session and is left out.
\<close>

type_synonym frame = "real list"

type_synonym handle = nat

datatype exn = Error string | RangeError

datatype outcome = Returned | Raised exn

record AudioCaptureOptions =
  sampleRate :: nat
  channels :: nat
  bitDepth :: nat
  chunkSize :: nat
  vadThreshold :: real

record VADResult =
  isSpeech :: bool
  confidence :: real
  energy :: real

datatype event =
    AudioLevelEvent real
  | VADEvent VADResult
  | AudioChunkEvent frame
  | ErrorEvent exn
  | ProcessorDisconnected handle
  | AnalyserDisconnected handle
  | MicrophoneDisconnected handle
  | ContextClosed handle
  | TracksStopped handle

record session =
  stream :: "handle option"
  audioContext :: "handle option"
  processor :: "handle option"
  analyser :: "handle option"
  microphone :: "handle option"
  isRecording :: bool
  audioBuffer :: "frame list"
  bufferSize :: nat
  maxBufferSize :: nat
  energyHistory :: "real list"
  energyHistorySize :: nat
  silenceFrames :: nat
  speechFrames :: nat
  minSpeechFrames :: nat
  minSilenceFrames :: nat
  backgroundNoise :: real
  onAudioChunk :: "(frame \<Rightarrow> outcome) option"
  onVAD :: "(VADResult \<Rightarrow> outcome) option"
  onError :: "(exn \<Rightarrow> outcome) option"
  onAudioLevel :: "(real \<Rightarrow> outcome) option"
  options :: AudioCaptureOptions
  events :: "event list"

text \<open>The default argument of the constructor.\<close>

definition defaultOptions :: AudioCaptureOptions where
  "defaultOptions =
     \<lparr> sampleRate = 16000, channels = 1, bitDepth = 16, chunkSize = 512,
       vadThreshold = 1 / 1000 \<rparr>"

text \<open>The object right after \<open>new RealTimeAudioCapture(opts)\<close>: the field initialisers.\<close>

definition newSession :: "AudioCaptureOptions \<Rightarrow> session" where
  "newSession opts =
     \<lparr> stream = None, audioContext = None, processor = None, analyser = None,
       microphone = None,
       isRecording = False, audioBuffer = [], bufferSize = 0, maxBufferSize = 80000,
       energyHistory = [], energyHistorySize = 20, silenceFrames = 0, speechFrames = 0,
       minSpeechFrames = 3, minSilenceFrames = 30, backgroundNoise = - 6,
       onAudioChunk = None, onVAD = None, onError = None, onAudioLevel = None,
       options = opts, events = [] \<rparr>"

definition setOnAudioChunk :: "(frame \<Rightarrow> outcome) \<Rightarrow> session \<Rightarrow> session" where
  "setOnAudioChunk callback s = s\<lparr>onAudioChunk := Some callback\<rparr>"

definition setOnVAD :: "(VADResult \<Rightarrow> outcome) \<Rightarrow> session \<Rightarrow> session" where
  "setOnVAD callback s = s\<lparr>onVAD := Some callback\<rparr>"

definition setOnError :: "(exn \<Rightarrow> outcome) \<Rightarrow> session \<Rightarrow> session" where
  "setOnError callback s = s\<lparr>onError := Some callback\<rparr>"

definition setOnAudioLevel :: "(real \<Rightarrow> outcome) \<Rightarrow> session \<Rightarrow> session" where
  "setOnAudioLevel callback s = s\<lparr>onAudioLevel := Some callback\<rparr>"

section \<open>Sequencing with exceptions\<close>

text \<open>
  \<open>andThen r k\<close> continues with \<open>k\<close> when the first part returned, and stops with the
  exception and the session as it stood otherwise: no operation of the class has a
  \<open>try\<close> around its body on the per-frame, flush, stop or cleanup path.
\<close>

definition andThen ::
  "outcome \<times> session \<Rightarrow> (session \<Rightarrow> outcome \<times> session) \<Rightarrow> outcome \<times> session" where
  "andThen r k = (case fst r of Returned \<Rightarrow> k (snd r) | Raised e \<Rightarrow> r)"

text \<open>
  \<open>this.cb?.(x)\<close>: nothing happens without a listener; with one, the call is recorded
  and its outcome is the outcome of the call.
\<close>

definition invoke ::
  "('a \<Rightarrow> outcome) option \<Rightarrow> 'a \<Rightarrow> event \<Rightarrow> session \<Rightarrow> outcome \<times> session" where
  "invoke cb x ev s =
     (case cb of
        None \<Rightarrow> (Returned, s)
      | Some f \<Rightarrow> (f x, s\<lparr>events := events s @ [ev]\<rparr>))"

section \<open>Audio level and voice activity detection\<close>

definition calculateAudioLevel :: "frame \<Rightarrow> real" where
  "calculateAudioLevel data =
     (let sum = foldl (\<lambda>acc x. acc + \<bar>x\<bar>) 0 data;
          average = sum / real (length data)
      in min (average * 100) 100)"

text \<open>The first four lines of \<open>performVAD\<close>: the log-domain RMS energy of a frame.\<close>

definition frameEnergy :: "frame \<Rightarrow> real" where
  "frameEnergy data =
     (let sum = foldl (\<lambda>acc x. acc + x * x) 0 data;
          rms = sqrt (sum / real (length data))
      in log 10 (rms + 1 / 10 ^ 10))"

text \<open>
  \<open>performVAD\<close>, block by block. First the noise estimate is refreshed from the history
  as it stands. The index \<open>Math.floor(n * 0.1)\<close> is below \<open>n\<close> whenever it is read
  (\<open>n > 10\<close>), so the read is always in range; the double nearest to 0.1 lies above
  0.1, so the rounded product has the floor of the exact \<open>n / 10\<close>.
\<close>

definition updateBackgroundNoise :: "session \<Rightarrow> session" where
  "updateBackgroundNoise s =
     (if length (energyHistory s) > 10
      then let sortedHistory = sort (energyHistory s)
           in s\<lparr>backgroundNoise :=
                  sortedHistory ! nat \<lfloor>real (length sortedHistory) * (1 / 10)\<rfloor>\<rparr>
      else s)"

text \<open>Then the frame's energy is pushed, and the oldest entry shifted out when over size.\<close>

definition updateEnergyHistory :: "real \<Rightarrow> session \<Rightarrow> session" where
  "updateEnergyHistory e s =
     (let pushed = energyHistory s @ [e]
      in s\<lparr>energyHistory :=
             (if length pushed > energyHistorySize s then tl pushed else pushed)\<rparr>)"

text \<open>Last the classification, which reads the session and the frame's energy.\<close>

definition classify :: "session \<Rightarrow> real \<Rightarrow> VADResult" where
  "classify s e =
     (let recentFrames = drop (length (energyHistory s) - 5) (energyHistory s);
          recentAvg = foldl (\<lambda>a b. a + b) 0 recentFrames / real (length recentFrames);
          adaptiveThreshold = backgroundNoise s + 5 / 10;
          fallbackThreshold = log 10 (vadThreshold (options s));
          threshold = max adaptiveThreshold fallbackThreshold;
          energyAboveThreshold = (recentAvg > threshold);
          significantEnergyIncrease = (e > backgroundNoise s + 3 / 10);
          isSpeech = (energyAboveThreshold \<or> significantEnergyIncrease);
          energyDiff = recentAvg - threshold;
          confidence = min (max (energyDiff / 2) 0) 1
      in \<lparr> isSpeech = isSpeech, confidence = confidence, energy = recentAvg \<rparr>)"

definition performVAD :: "session \<Rightarrow> frame \<Rightarrow> VADResult \<times> session" where
  "performVAD s data =
     (let e = frameEnergy data;
          s2 = updateEnergyHistory e (updateBackgroundNoise s)
      in (classify s2 e, s2))"

section \<open>Flushing the buffer\<close>

text \<open>
  \<open>concatenated.set(chunk, offset)\<close> overwrites \<open>chunk.length\<close> cells from \<open>offset\<close> and
  throws a \<open>RangeError\<close> when the chunk does not fit.
\<close>

definition typedArraySet :: "frame \<Rightarrow> frame \<Rightarrow> nat \<Rightarrow> frame option" where
  "typedArraySet arr chunk offset =
     (if offset + length chunk \<le> length arr
      then Some (take offset arr @ chunk @ drop (offset + length chunk) arr)
      else None)"

text \<open>The \<open>for (const chunk of this.audioBuffer)\<close> loop of \<open>sendBufferedAudio\<close>.\<close>

fun copyChunks :: "frame list \<Rightarrow> frame \<Rightarrow> nat \<Rightarrow> frame option" where
  "copyChunks [] concatenated offset = Some concatenated"
| "copyChunks (chunk # rest) concatenated offset =
     (case typedArraySet concatenated chunk offset of
        None \<Rightarrow> None
      | Some arr \<Rightarrow> copyChunks rest arr (offset + length chunk))"

definition sendBufferedAudio :: "session \<Rightarrow> outcome \<times> session" where
  "sendBufferedAudio s =
     (if length (audioBuffer s) = 0 then (Returned, s)
      else
        let totalLength = foldl (\<lambda>acc chunk. acc + length chunk) 0 (audioBuffer s)
        in case copyChunks (audioBuffer s) (replicate totalLength 0) 0 of
             None \<Rightarrow> (Raised RangeError, s)
           | Some concatenated \<Rightarrow>
               andThen (invoke (onAudioChunk s) concatenated (AudioChunkEvent concatenated) s)
                 (\<lambda>s1. (Returned, s1\<lparr>audioBuffer := [], bufferSize := 0\<rparr>)))"

section \<open>Per-frame processing\<close>

definition processAudioChunk :: "session \<Rightarrow> frame \<Rightarrow> outcome \<times> session" where
  "processAudioChunk s inputData =
     (let audioLevel = calculateAudioLevel inputData
      in andThen (invoke (onAudioLevel s) audioLevel (AudioLevelEvent audioLevel) s)
           (\<lambda>s1.
              let vadResult = fst (performVAD s1 inputData);
                  s2 = snd (performVAD s1 inputData)
              in andThen (invoke (onVAD s2) vadResult (VADEvent vadResult) s2)
                   (\<lambda>s3.
                      if isSpeech vadResult then
                        let s4 = s3\<lparr>audioBuffer := audioBuffer s3 @ [inputData],
                                    bufferSize := bufferSize s3 + length inputData,
                                    speechFrames := speechFrames s3 + 1,
                                    silenceFrames := 0\<rparr>
                        in if bufferSize s4 \<ge> maxBufferSize s4
                           then sendBufferedAudio s4
                           else (Returned, s4)
                      else
                        let s4 = s3\<lparr>silenceFrames := silenceFrames s3 + 1,
                                    speechFrames := 0\<rparr>
                        in if silenceFrames s4 \<ge> minSilenceFrames s4
                              \<and> length (audioBuffer s4) > 0
                           then sendBufferedAudio s4
                           else (Returned, s4))))"

text \<open>The handler installed on the script processor by \<open>initialize\<close>.\<close>

definition onaudioprocess :: "session \<Rightarrow> frame \<Rightarrow> outcome \<times> session" where
  "onaudioprocess s inputData =
     (if \<not> isRecording s then (Returned, s) else processAudioChunk s inputData)"

section \<open>Stopping and releasing\<close>

definition stopRecording :: "session \<Rightarrow> outcome \<times> session" where
  "stopRecording s =
     (let s1 = s\<lparr>isRecording := False\<rparr>
      in if length (audioBuffer s1) > 0 then sendBufferedAudio s1 else (Returned, s1))"

definition releaseProcessor :: "session \<Rightarrow> session" where
  "releaseProcessor s =
     (case processor s of
        None \<Rightarrow> s
      | Some h \<Rightarrow> s\<lparr>events := events s @ [ProcessorDisconnected h], processor := None\<rparr>)"

definition releaseAnalyser :: "session \<Rightarrow> session" where
  "releaseAnalyser s =
     (case analyser s of
        None \<Rightarrow> s
      | Some h \<Rightarrow> s\<lparr>events := events s @ [AnalyserDisconnected h], analyser := None\<rparr>)"

definition releaseMicrophone :: "session \<Rightarrow> session" where
  "releaseMicrophone s =
     (case microphone s of
        None \<Rightarrow> s
      | Some h \<Rightarrow> s\<lparr>events := events s @ [MicrophoneDisconnected h], microphone := None\<rparr>)"

definition releaseAudioContext :: "session \<Rightarrow> session" where
  "releaseAudioContext s =
     (case audioContext s of
        None \<Rightarrow> s
      | Some h \<Rightarrow> s\<lparr>events := events s @ [ContextClosed h], audioContext := None\<rparr>)"

definition releaseStream :: "session \<Rightarrow> session" where
  "releaseStream s =
     (case stream s of
        None \<Rightarrow> s
      | Some h \<Rightarrow> s\<lparr>events := events s @ [TracksStopped h], stream := None\<rparr>)"

definition cleanup :: "session \<Rightarrow> outcome \<times> session" where
  "cleanup s =
     andThen (stopRecording s)
       (\<lambda>s1. (Returned,
               releaseStream (releaseAudioContext (releaseMicrophone
                 (releaseAnalyser (releaseProcessor s1))))))"

section \<open>Runs of the frame handler\<close>

text \<open>
  The audio subsystem calls the handler once per frame; an exception leaving one call
  does not stop later calls.
\<close>

fun run :: "session \<Rightarrow> frame list \<Rightarrow> session" where
  "run s [] = s"
| "run s (d # ds) = run (snd (onaudioprocess s d)) ds"

section \<open>Notions used in the statements\<close>

text \<open>The segments handed to the \<open>onAudioChunk\<close> listener, oldest first.\<close>

fun emitted :: "event list \<Rightarrow> frame list" where
  "emitted [] = []"
| "emitted (AudioChunkEvent x # es) = x # emitted es"
| "emitted (AudioLevelEvent l # es) = emitted es"
| "emitted (VADEvent v # es) = emitted es"
| "emitted (ErrorEvent e # es) = emitted es"
| "emitted (ProcessorDisconnected h # es) = emitted es"
| "emitted (AnalyserDisconnected h # es) = emitted es"
| "emitted (MicrophoneDisconnected h # es) = emitted es"
| "emitted (ContextClosed h # es) = emitted es"
| "emitted (TracksStopped h # es) = emitted es"

definition segments :: "session \<Rightarrow> frame list" where
  "segments s = emitted (events s)"

text \<open>The exceptions handed to the \<open>onError\<close> listener.\<close>

fun reported :: "event list \<Rightarrow> exn list" where
  "reported [] = []"
| "reported (ErrorEvent e # es) = e # reported es"
| "reported (AudioChunkEvent x # es) = reported es"
| "reported (AudioLevelEvent l # es) = reported es"
| "reported (VADEvent v # es) = reported es"
| "reported (ProcessorDisconnected h # es) = reported es"
| "reported (AnalyserDisconnected h # es) = reported es"
| "reported (MicrophoneDisconnected h # es) = reported es"
| "reported (ContextClosed h # es) = reported es"
| "reported (TracksStopped h # es) = reported es"

text \<open>Device releases among the events.\<close>

fun isRelease :: "event \<Rightarrow> bool" where
  "isRelease (ProcessorDisconnected h) = True"
| "isRelease (AnalyserDisconnected h) = True"
| "isRelease (MicrophoneDisconnected h) = True"
| "isRelease (ContextClosed h) = True"
| "isRelease (TracksStopped h) = True"
| "isRelease (AudioLevelEvent l) = False"
| "isRelease (VADEvent v) = False"
| "isRelease (AudioChunkEvent x) = False"
| "isRelease (ErrorEvent e) = False"

text \<open>What an operation appended to the event record.\<close>

definition since :: "session \<Rightarrow> session \<Rightarrow> event list" where
  "since s s' = drop (length (events s)) (events s')"

text \<open>A listener that is absent, or that returns normally on every argument.\<close>

definition quietListener :: "('a \<Rightarrow> outcome) option \<Rightarrow> bool" where
  "quietListener cb = (case cb of None \<Rightarrow> True | Some f \<Rightarrow> (\<forall>x. f x = Returned))"

definition calm :: "session \<Rightarrow> bool" where
  "calm s \<longleftrightarrow> quietListener (onAudioLevel s) \<and> quietListener (onVAD s) \<and> quietListener (onAudioChunk s)"

text \<open>The frames of a run that the detector classifies as speech, in order.\<close>

fun heard :: "session \<Rightarrow> frame list \<Rightarrow> frame list" where
  "heard s [] = []"
| "heard s (d # ds) =
     (if isSpeech (fst (performVAD s d)) then [d] else []) @ heard (snd (onaudioprocess s d)) ds"

fun allSpeech :: "session \<Rightarrow> frame list \<Rightarrow> bool" where
  "allSpeech s [] = True"
| "allSpeech s (d # ds) =
     (isSpeech (fst (performVAD s d)) \<and> allSpeech (snd (onaudioprocess s d)) ds)"

text \<open>The running sample count agrees with the buffered chunks.\<close>

definition bufferInv :: "session \<Rightarrow> bool" where
  "bufferInv s \<longleftrightarrow> bufferSize s = sum_list (map length (audioBuffer s))"

text \<open>All five device resources are released.\<close>

definition released :: "session \<Rightarrow> bool" where
  "released s \<longleftrightarrow>
     processor s = None \<and> analyser s = None \<and> microphone s = None
     \<and> audioContext s = None \<and> stream s = None"

text \<open>The state a completed \<open>cleanup\<close> leaves: nothing held, not recording, nothing buffered.\<close>

definition closed :: "session \<Rightarrow> bool" where
  "closed s \<longleftrightarrow> released s \<and> \<not> isRecording s \<and> audioBuffer s = []"

text \<open>The releases \<open>cleanup\<close> performs for the resources a session holds, in its order.\<close>

definition releaseEvents :: "session \<Rightarrow> event list" where
  "releaseEvents s =
     (case processor s of None \<Rightarrow> [] | Some h \<Rightarrow> [ProcessorDisconnected h])
     @ (case analyser s of None \<Rightarrow> [] | Some h \<Rightarrow> [AnalyserDisconnected h])
     @ (case microphone s of None \<Rightarrow> [] | Some h \<Rightarrow> [MicrophoneDisconnected h])
     @ (case audioContext s of None \<Rightarrow> [] | Some h \<Rightarrow> [ContextClosed h])
     @ (case stream s of None \<Rightarrow> [] | Some h \<Rightarrow> [TracksStopped h])"

subsection \<open>The detector as the specification words it\<close>

definition spec_rms :: "frame \<Rightarrow> real" where
  "spec_rms f = sqrt (sum_list (map (\<lambda>x. x\<^sup>2) f) / real (length f))"

definition spec_energy :: "frame \<Rightarrow> real" where
  "spec_energy f = log 10 (spec_rms f + 1 / 10 ^ 10)"

definition lastN :: "nat \<Rightarrow> 'a list \<Rightarrow> 'a list" where
  "lastN n xs = rev (take n (rev xs))"

definition mean :: "real list \<Rightarrow> real" where
  "mean xs = sum_list xs / real (length xs)"

definition spec_recentAvg :: "real list \<Rightarrow> real" where
  "spec_recentAvg history = mean (lastN 5 history)"

definition spec_threshold :: "real \<Rightarrow> real \<Rightarrow> real" where
  "spec_threshold backgroundNoiseEstimate configuredVadThreshold =
     (let adaptiveThreshold = backgroundNoiseEstimate + 5 / 10;
          fallbackThreshold = log 10 configuredVadThreshold
      in max adaptiveThreshold fallbackThreshold)"

definition spec_isSpeech :: "real \<Rightarrow> real list \<Rightarrow> real \<Rightarrow> real \<Rightarrow> bool" where
  "spec_isSpeech backgroundNoiseEstimate history e configuredVadThreshold \<longleftrightarrow>
     spec_recentAvg history > spec_threshold backgroundNoiseEstimate configuredVadThreshold
     \<or> e > backgroundNoiseEstimate + 3 / 10"

definition clamp :: "real \<Rightarrow> real \<Rightarrow> real \<Rightarrow> real" where
  "clamp x lo hi = (if x < lo then lo else if hi < x then hi else x)"

definition spec_confidence :: "real \<Rightarrow> real list \<Rightarrow> real \<Rightarrow> real" where
  "spec_confidence backgroundNoiseEstimate history configuredVadThreshold =
     clamp ((spec_recentAvg history
               - spec_threshold backgroundNoiseEstimate configuredVadThreshold) / 2) 0 1"

text \<open>The value at one tenth of the way into the sorted snapshot.\<close>

definition tenthPercentile :: "real list \<Rightarrow> real" where
  "tenthPercentile history = sort history ! (length history div 10)"

subsection \<open>Concrete sessions\<close>

text \<open>
  A session built with the default options, with the segment and error listeners
  registered as the constructor of \<open>RealTimeTranscriptionManager\<close> does (neither can
  throw: the segment listener logs and starts an asynchronous call), no level or VAD
  listener, devices acquired by \<open>initialize\<close> and recording started.
\<close>

definition liveSession :: session where
  "liveSession =
     (setOnError (\<lambda>error. Returned)
        (setOnAudioChunk (\<lambda>audioData. Returned) (newSession defaultOptions)))
       \<lparr> stream := Some 1, audioContext := Some 2, microphone := Some 3,
         analyser := Some 4, processor := Some 5, isRecording := True \<rparr>"

text \<open>The live session after one frame holding the single sample 1.\<close>

definition accumulating :: session where
  "accumulating = snd (onaudioprocess liveSession [1])"

text \<open>
  A session whose \<open>initialize\<close> acquired the stream and the audio context and then
  failed: recording never started.
\<close>

definition halfInitialised :: session where
  "halfInitialised = (newSession defaultOptions)\<lparr>stream := Some 1, audioContext := Some 2\<rparr>"

text \<open>The live session with a VAD listener that throws.\<close>

definition throwingSession :: session where
  "throwingSession = setOnVAD (\<lambda>result. Raised (Error ''listener failed'')) liveSession"

text \<open>
  Between two sessions: the recording flag, the errors reported to \<open>onError\<close> and the five
  device resources are the same.
\<close>

definition undisturbed :: "session \<Rightarrow> session \<Rightarrow> bool" where
  "undisturbed s s' \<longleftrightarrow>
     isRecording s' = isRecording s
     \<and> reported (events s') = reported (events s)
     \<and> processor s' = processor s \<and> analyser s' = analyser s
     \<and> microphone s' = microphone s \<and> audioContext s' = audioContext s
     \<and> stream s' = stream s"

text \<open>A frame of \<open>n\<close> samples at full scale.\<close>

definition steadyTone :: "nat \<Rightarrow> frame" where
  "steadyTone n = replicate n 1"

text \<open>
  A session with the default threshold whose history holds at most one entry above the
  energy of digital silence (\<open>- 10\<close>), and that one at its head.
\<close>

definition hushed :: "session \<Rightarrow> bool" where
  "hushed s \<longleftrightarrow>
     vadThreshold (options s) = 1 / 1000 \<and> 2 \<le> energyHistorySize s
     \<and> - 10 \<le> backgroundNoise s
     \<and> energyHistory s \<noteq> []
     \<and> - 10 \<le> hd (energyHistory s) \<and> hd (energyHistory s) < 1
     \<and> set (tl (energyHistory s)) \<subseteq> {- 10}"

text \<open>
  The accumulating session after its client replaced the segment listener by one that
  throws.
\<close>

definition brokenSinkSession :: session where
  "brokenSinkSession =
     setOnAudioChunk (\<lambda>audioData. Raised (Error ''sink failed'')) accumulating"

subsection \<open>The detector in IEEE arithmetic\<close>

text \<open>
  The values a JavaScript \<open>number\<close> takes in \<open>performVAD\<close> besides the finite ones.
  Rounding and overflow are not modelled: a finite result is the exact real.
\<close>

datatype jsnum = NaN | NegInfinity | PosInfinity | Num real

text \<open>\<open>a + b\<close>.\<close>

fun js_add :: "jsnum \<Rightarrow> jsnum \<Rightarrow> jsnum" where
  "js_add (Num a) (Num b) = Num (a + b)"
| "js_add NaN b = NaN"
| "js_add a NaN = NaN"
| "js_add NegInfinity PosInfinity = NaN"
| "js_add PosInfinity NegInfinity = NaN"
| "js_add NegInfinity b = NegInfinity"
| "js_add a NegInfinity = NegInfinity"
| "js_add PosInfinity b = PosInfinity"
| "js_add a PosInfinity = PosInfinity"

text \<open>\<open>a - b\<close>.\<close>

fun js_sub :: "jsnum \<Rightarrow> jsnum \<Rightarrow> jsnum" where
  "js_sub (Num a) (Num b) = Num (a - b)"
| "js_sub NaN b = NaN"
| "js_sub a NaN = NaN"
| "js_sub NegInfinity NegInfinity = NaN"
| "js_sub PosInfinity PosInfinity = NaN"
| "js_sub NegInfinity b = NegInfinity"
| "js_sub a PosInfinity = NegInfinity"
| "js_sub PosInfinity b = PosInfinity"
| "js_sub a NegInfinity = PosInfinity"

text \<open>\<open>a / n\<close> for a count \<open>n\<close> (an array length or the literal 2): \<open>0 / 0\<close> is \<open>NaN\<close>.\<close>

fun js_div_count :: "jsnum \<Rightarrow> nat \<Rightarrow> jsnum" where
  "js_div_count NaN n = NaN"
| "js_div_count NegInfinity n = NegInfinity"
| "js_div_count PosInfinity n = PosInfinity"
| "js_div_count (Num a) n =
     (if n = 0 then (if a = 0 then NaN else if 0 < a then PosInfinity else NegInfinity)
      else Num (a / real n))"

text \<open>\<open>Math.sqrt\<close>.\<close>

fun js_sqrt :: "jsnum \<Rightarrow> jsnum" where
  "js_sqrt NaN = NaN"
| "js_sqrt NegInfinity = NaN"
| "js_sqrt PosInfinity = PosInfinity"
| "js_sqrt (Num a) = (if a < 0 then NaN else Num (sqrt a))"

text \<open>\<open>Math.log10\<close>.\<close>

fun js_log10 :: "jsnum \<Rightarrow> jsnum" where
  "js_log10 NaN = NaN"
| "js_log10 NegInfinity = NaN"
| "js_log10 PosInfinity = PosInfinity"
| "js_log10 (Num a) = (if a < 0 then NaN else if a = 0 then NegInfinity else Num (log 10 a))"

text \<open>\<open>Math.max\<close> and \<open>Math.min\<close>: \<open>NaN\<close> when an argument is \<open>NaN\<close>.\<close>

fun js_max :: "jsnum \<Rightarrow> jsnum \<Rightarrow> jsnum" where
  "js_max (Num a) (Num b) = Num (max a b)"
| "js_max NaN b = NaN"
| "js_max a NaN = NaN"
| "js_max PosInfinity b = PosInfinity"
| "js_max a PosInfinity = PosInfinity"
| "js_max NegInfinity b = b"
| "js_max a NegInfinity = a"

fun js_min :: "jsnum \<Rightarrow> jsnum \<Rightarrow> jsnum" where
  "js_min (Num a) (Num b) = Num (min a b)"
| "js_min NaN b = NaN"
| "js_min a NaN = NaN"
| "js_min NegInfinity b = NegInfinity"
| "js_min a NegInfinity = NegInfinity"
| "js_min PosInfinity b = b"
| "js_min a PosInfinity = a"

text \<open>\<open>a > b\<close>: false when an operand is \<open>NaN\<close>.\<close>

fun js_gt :: "jsnum \<Rightarrow> jsnum \<Rightarrow> bool" where
  "js_gt (Num a) (Num b) = (a > b)"
| "js_gt NaN b = False"
| "js_gt a NaN = False"
| "js_gt a PosInfinity = False"
| "js_gt NegInfinity b = False"
| "js_gt PosInfinity b = True"
| "js_gt a NegInfinity = True"

record VADResultJS =
  isSpeechJS :: bool
  confidenceJS :: jsnum
  energyJS :: jsnum

text \<open>
  The \<open>VADResult\<close> that \<open>performVAD\<close> returns, line by line in this arithmetic, for a
  session whose history and noise estimate hold finite numbers and a frame of finite
  samples; the frame may be empty and \<open>vadThreshold\<close> may be any finite number. The
  noise estimate is refreshed from the finite history as in \<open>updateBackgroundNoise\<close>.
\<close>

definition performVAD_js :: "session \<Rightarrow> frame \<Rightarrow> VADResultJS" where
  "performVAD_js s data =
     (let sum = Num (foldl (\<lambda>acc x. acc + x * x) 0 data);
          rms = js_sqrt (js_div_count sum (length data));
          energy = js_log10 (js_add rms (Num (1 / 10 ^ 10)));
          noise = backgroundNoise (updateBackgroundNoise s);
          pushed = map Num (energyHistory s) @ [energy];
          history = (if length pushed > energyHistorySize s then tl pushed else pushed);
          recentFrames = drop (length history - 5) history;
          recentAvg = js_div_count (foldl js_add (Num 0) recentFrames) (length recentFrames);
          adaptiveThreshold = Num (noise + 5 / 10);
          fallbackThreshold = js_log10 (Num (vadThreshold (options s)));
          threshold = js_max adaptiveThreshold fallbackThreshold;
          energyAboveThreshold = js_gt recentAvg threshold;
          significantEnergyIncrease = js_gt energy (Num (noise + 3 / 10));
          energyDiff = js_sub recentAvg threshold;
          confidence = js_min (js_max (js_div_count energyDiff 2) (Num 0)) (Num 1)
      in \<lparr> isSpeechJS = energyAboveThreshold \<or> significantEnergyIncrease,
            confidenceJS = confidence,
            energyJS = recentAvg \<rparr>)"

text \<open>A finite number between 0 and 1.\<close>

fun inUnitInterval :: "jsnum \<Rightarrow> bool" where
  "inUnitInterval (Num c) = (0 \<le> c \<and> c \<le> 1)"
| "inUnitInterval NaN = False"
| "inUnitInterval NegInfinity = False"
| "inUnitInterval PosInfinity = False"

text \<open>A recording session constructed with a negative \<open>vadThreshold\<close> option.\<close>

definition negativeThresholdSession :: session where
  "negativeThresholdSession =
     (newSession (defaultOptions\<lparr>vadThreshold := - 1\<rparr>))
       \<lparr> stream := Some 1, audioContext := Some 2, microphone := Some 3,
         analyser := Some 4, processor := Some 5, isRecording := True \<rparr>"

section \<open>Basic facts about the operations\<close>

lemma foldl_add_sum_list:
  "foldl (\<lambda>acc x. acc + f x) a xs = a + sum_list (map f xs)"
  by (induction xs arbitrary: a) (simp_all add: add.assoc)

lemma foldl_plus_sum_list: "foldl (\<lambda>a b. a + b) (a::real) xs = a + sum_list xs"
  by (induction xs arbitrary: a) (simp_all add: add.assoc)

lemma copyChunks_append:
  "copyChunks cs (pre @ replicate (sum_list (map length cs)) 0) (length pre)
     = Some (pre @ concat cs)"
proof (induction cs arbitrary: pre)
  case Nil
  then show ?case by simp
next
  case (Cons c cs)
  have "typedArraySet (pre @ replicate (length c + sum_list (map length cs)) 0) c (length pre)
          = Some ((pre @ c) @ replicate (sum_list (map length cs)) 0)"
    by (simp add: typedArraySet_def replicate_add)
  then show ?case using Cons.IH [of "pre @ c"] by simp
qed

lemma copyChunks_concat:
  "copyChunks cs (replicate (foldl (\<lambda>acc chunk. acc + length chunk) 0 cs) 0) 0 = Some (concat cs)"
  using copyChunks_append [of cs "[]"] by (simp add: foldl_add_sum_list)

lemma sendBufferedAudio_eq:
  "sendBufferedAudio s =
     (if audioBuffer s = [] then (Returned, s)
      else andThen (invoke (onAudioChunk s) (concat (audioBuffer s))
                      (AudioChunkEvent (concat (audioBuffer s))) s)
             (\<lambda>s1. (Returned, s1\<lparr>audioBuffer := [], bufferSize := 0\<rparr>)))"
  by (simp add: sendBufferedAudio_def copyChunks_concat)

lemma emitted_append: "emitted (xs @ ys) = emitted xs @ emitted ys"
  by (induction xs rule: emitted.induct) simp_all

lemma reported_append: "reported (xs @ ys) = reported xs @ reported ys"
  by (induction xs rule: reported.induct) simp_all

lemma floor_tenth: "nat \<lfloor>real n / 10\<rfloor> = n div 10"
proof -
  have "\<lfloor>real n / 10\<rfloor> = \<lfloor>real_of_int (int n) / real_of_int 10\<rfloor>" by simp
  also have "\<dots> = int n div 10" by (rule floor_divide_of_int_eq)
  finally show ?thesis by (simp add: nat_div_distrib)
qed

lemma performVAD_snd:
  "snd (performVAD s d) =
     s\<lparr>backgroundNoise :=
          (if length (energyHistory s) > 10 then tenthPercentile (energyHistory s)
           else backgroundNoise s),
       energyHistory :=
          (if length (energyHistory s) + 1 > energyHistorySize s
           then tl (energyHistory s @ [frameEnergy d])
           else energyHistory s @ [frameEnergy d])\<rparr>"
  by (simp add: performVAD_def updateBackgroundNoise_def updateEnergyHistory_def
        tenthPercentile_def floor_tenth Let_def)

lemma performVAD_frame:
  "audioBuffer (snd (performVAD s d)) = audioBuffer s"
  "bufferSize (snd (performVAD s d)) = bufferSize s"
  "maxBufferSize (snd (performVAD s d)) = maxBufferSize s"
  "isRecording (snd (performVAD s d)) = isRecording s"
  "silenceFrames (snd (performVAD s d)) = silenceFrames s"
  "speechFrames (snd (performVAD s d)) = speechFrames s"
  "minSilenceFrames (snd (performVAD s d)) = minSilenceFrames s"
  "minSpeechFrames (snd (performVAD s d)) = minSpeechFrames s"
  "energyHistorySize (snd (performVAD s d)) = energyHistorySize s"
  "onAudioChunk (snd (performVAD s d)) = onAudioChunk s"
  "onVAD (snd (performVAD s d)) = onVAD s"
  "onError (snd (performVAD s d)) = onError s"
  "onAudioLevel (snd (performVAD s d)) = onAudioLevel s"
  "options (snd (performVAD s d)) = options s"
  "events (snd (performVAD s d)) = events s"
  "processor (snd (performVAD s d)) = processor s"
  "analyser (snd (performVAD s d)) = analyser s"
  "microphone (snd (performVAD s d)) = microphone s"
  "audioContext (snd (performVAD s d)) = audioContext s"
  "stream (snd (performVAD s d)) = stream s"
  by (simp_all add: performVAD_snd)

lemma classify_events_update: "classify (s\<lparr>events := ev\<rparr>) e = classify s e"
  by (simp add: classify_def)

lemma updateBackgroundNoise_events_update:
  "updateBackgroundNoise (s\<lparr>events := ev\<rparr>) = (updateBackgroundNoise s)\<lparr>events := ev\<rparr>"
  by (simp add: updateBackgroundNoise_def Let_def)

lemma updateEnergyHistory_events_update:
  "updateEnergyHistory e (s\<lparr>events := ev\<rparr>) = (updateEnergyHistory e s)\<lparr>events := ev\<rparr>"
  by (simp add: updateEnergyHistory_def Let_def)

lemma performVAD_events_update:
  "performVAD (s\<lparr>events := ev\<rparr>) d
     = (fst (performVAD s d), (snd (performVAD s d))\<lparr>events := ev\<rparr>)"
  by (simp add: performVAD_def Let_def updateBackgroundNoise_events_update
        updateEnergyHistory_events_update classify_events_update)

lemma invoke_quiet:
  "quietListener cb \<Longrightarrow>
   invoke cb x ev s = (Returned, s\<lparr>events := events s @ (if cb = None then [] else [ev])\<rparr>)"
  by (cases cb) (simp_all add: quietListener_def invoke_def)

lemma andThen_Returned: "andThen (Returned, s) k = k s"
  by (simp add: andThen_def)

lemma andThen_Raised: "andThen (Raised e, s) k = (Raised e, s)"
  by (simp add: andThen_def)

lemma sendBufferedAudio_quiet:
  "quietListener (onAudioChunk s) \<Longrightarrow>
   sendBufferedAudio s =
     (if audioBuffer s = [] then (Returned, s)
      else (Returned,
            s\<lparr>events := events s @ (if onAudioChunk s = None then []
                                      else [AudioChunkEvent (concat (audioBuffer s))]),
              audioBuffer := [], bufferSize := 0\<rparr>))"
  by (simp add: sendBufferedAudio_eq invoke_quiet andThen_Returned)

lemma processAudioChunk_quiet:
  assumes "calm s"
  shows "processAudioChunk s d =
    (let v = fst (performVAD s d);
         s2 = (snd (performVAD s d))
                \<lparr>events := events s
                    @ (if onAudioLevel s = None then [] else [AudioLevelEvent (calculateAudioLevel d)])
                    @ (if onVAD s = None then [] else [VADEvent v])\<rparr>
     in if isSpeech v then
          (let s4 = s2\<lparr>audioBuffer := audioBuffer s @ [d],
                       bufferSize := bufferSize s + length d,
                       speechFrames := speechFrames s + 1,
                       silenceFrames := 0\<rparr>
           in if maxBufferSize s \<le> bufferSize s + length d
              then sendBufferedAudio s4 else (Returned, s4))
        else
          (let s4 = s2\<lparr>silenceFrames := silenceFrames s + 1, speechFrames := 0\<rparr>
           in if minSilenceFrames s \<le> silenceFrames s + 1 \<and> audioBuffer s \<noteq> []
              then sendBufferedAudio s4 else (Returned, s4)))"
proof -
  have q: "quietListener (onAudioLevel s)" "quietListener (onVAD s)"
    using assms by (simp_all add: calm_def)
  show ?thesis
    unfolding processAudioChunk_def Let_def
    by (simp add: invoke_quiet [OF q(1)] andThen_Returned performVAD_events_update
          performVAD_frame invoke_quiet q(2))
qed


lemma invoke_snd:
  "snd (invoke cb x ev s) = s\<lparr>events := events s @ (if cb = None then [] else [ev])\<rparr>"
  by (cases cb) (simp_all add: invoke_def)

lemma invoke_fst: "fst (invoke cb x ev s) = (case cb of None \<Rightarrow> Returned | Some f \<Rightarrow> f x)"
  by (cases cb) (simp_all add: invoke_def)

lemma andThen_snd_cases:
  "snd (andThen r k) = (if fst r = Returned then snd (k (snd r)) else snd r)"
  by (cases "fst r") (simp_all add: andThen_def)

lemma andThen_fst_cases:
  "fst (andThen r k) = (if fst r = Returned then fst (k (snd r)) else fst r)"
  by (cases "fst r") (simp_all add: andThen_def)

lemma sendBufferedAudio_snd:
  "snd (sendBufferedAudio s) =
     (if audioBuffer s = [] then s
      else if fst (sendBufferedAudio s) = Returned
      then s\<lparr>events := events s @ (if onAudioChunk s = None then []
                                     else [AudioChunkEvent (concat (audioBuffer s))]),
             audioBuffer := [], bufferSize := 0\<rparr>
      else s\<lparr>events := events s @ (if onAudioChunk s = None then []
                                     else [AudioChunkEvent (concat (audioBuffer s))])\<rparr>)"
  by (simp add: sendBufferedAudio_eq andThen_snd_cases andThen_fst_cases invoke_snd)

lemma bufferInv_events_update: "bufferInv (s\<lparr>events := ev\<rparr>) = bufferInv s"
  by (simp add: bufferInv_def)

lemma bufferInv_sendBufferedAudio: "bufferInv s \<Longrightarrow> bufferInv (snd (sendBufferedAudio s))"
  by (subst sendBufferedAudio_snd) (simp add: bufferInv_def)

lemma bufferInv_performVAD: "bufferInv (snd (performVAD s d)) = bufferInv s"
  by (simp add: bufferInv_def performVAD_frame)

lemma bufferInv_processAudioChunk:
  assumes "bufferInv s"
  shows "bufferInv (snd (processAudioChunk s d))"
proof -
  let ?s1 = "snd (invoke (onAudioLevel s) (calculateAudioLevel d)
                     (AudioLevelEvent (calculateAudioLevel d)) s)"
  let ?v = "fst (performVAD ?s1 d)"
  let ?s2 = "snd (performVAD ?s1 d)"
  let ?s3 = "snd (invoke (onVAD ?s2) ?v (VADEvent ?v) ?s2)"
  have i1: "bufferInv ?s1"
    using assms by (simp add: invoke_snd bufferInv_events_update)
  then have i3: "bufferInv ?s3"
    by (simp add: invoke_snd bufferInv_events_update bufferInv_performVAD)
  have speech: "bufferInv (?s3\<lparr>audioBuffer := audioBuffer ?s3 @ [d],
                  bufferSize := bufferSize ?s3 + length d,
                  speechFrames := speechFrames ?s3 + 1, silenceFrames := 0\<rparr>)"
    using i3 by (simp add: bufferInv_def)
  have silence: "bufferInv (?s3\<lparr>silenceFrames := silenceFrames ?s3 + 1, speechFrames := 0\<rparr>)"
    using i3 by (simp add: bufferInv_def)
  show ?thesis
    unfolding processAudioChunk_def Let_def andThen_snd_cases
    using i1 i3 bufferInv_sendBufferedAudio [OF speech] bufferInv_sendBufferedAudio [OF silence]
      speech silence
    by (simp del: One_nat_def)
qed

lemma stopRecording_eq:
  "stopRecording s =
     (if audioBuffer s = [] then (Returned, s\<lparr>isRecording := False\<rparr>)
      else sendBufferedAudio (s\<lparr>isRecording := False\<rparr>))"
  by (simp add: stopRecording_def Let_def)

lemma bufferInv_stopRecording: "bufferInv s \<Longrightarrow> bufferInv (snd (stopRecording s))"
  using bufferInv_sendBufferedAudio [of "s\<lparr>isRecording := False\<rparr>"]
  by (simp add: stopRecording_eq bufferInv_def)

lemma release_chain:
  "releaseStream (releaseAudioContext (releaseMicrophone (releaseAnalyser (releaseProcessor s))))
     = s\<lparr>events := events s @ releaseEvents s, processor := None, analyser := None,
         microphone := None, audioContext := None, stream := None\<rparr>"
  by (cases "processor s"; cases "analyser s"; cases "microphone s"; cases "audioContext s";
      cases "stream s")
     (simp_all add: releaseStream_def releaseAudioContext_def releaseMicrophone_def
        releaseAnalyser_def releaseProcessor_def releaseEvents_def)

lemma cleanup_eq:
  "cleanup s =
     (if fst (stopRecording s) = Returned
      then (Returned,
            (snd (stopRecording s))
              \<lparr>events := events (snd (stopRecording s)) @ releaseEvents (snd (stopRecording s)),
                processor := None, analyser := None, microphone := None,
                audioContext := None, stream := None\<rparr>)
      else stopRecording s)"
  by (cases "stopRecording s"; cases "fst (stopRecording s)")
     (simp_all add: cleanup_def andThen_def release_chain)

lemma bufferInv_cleanup: "bufferInv s \<Longrightarrow> bufferInv (snd (cleanup s))"
  using bufferInv_stopRecording [of s] by (simp add: cleanup_eq bufferInv_def)

lemma bufferInv_onaudioprocess: "bufferInv s \<Longrightarrow> bufferInv (snd (onaudioprocess s d))"
  by (simp add: onaudioprocess_def bufferInv_processAudioChunk)

lemma sendBufferedAudio_flushed:
  "bufferInv s \<Longrightarrow> fst (sendBufferedAudio s) = Returned \<Longrightarrow>
   audioBuffer (snd (sendBufferedAudio s)) = [] \<and> bufferSize (snd (sendBufferedAudio s)) = 0"
  by (subst (1 2) sendBufferedAudio_snd) (auto simp: bufferInv_def)

lemma log10_eps: "log 10 (1 / 10 ^ 10) = - 10"
proof -
  have "log 10 ((10::real) ^ 10) = real 10"
    by (rule log_pow_cancel) simp_all
  then show ?thesis by (simp add: log_divide_pos)
qed

lemma frameEnergy_zero: "frameEnergy [0] = - 10"
  using log10_eps by (simp add: frameEnergy_def)

lemma frameEnergy_one_bounds: "0 < frameEnergy [1] \<and> frameEnergy [1] < 1"
  by (simp add: frameEnergy_def)

lemma performVAD_fst: "fst (performVAD s d) = classify (snd (performVAD s d)) (frameEnergy d)"
  by (simp add: performVAD_def Let_def)

lemma isSpeech_classify:
  "isSpeech (classify s e) \<longleftrightarrow>
     foldl (\<lambda>a b. a + b) 0 (drop (length (energyHistory s) - 5) (energyHistory s))
       / real (length (drop (length (energyHistory s) - 5) (energyHistory s)))
       > max (backgroundNoise s + 5 / 10) (log 10 (vadThreshold (options s)))
     \<or> e > backgroundNoise s + 3 / 10"
  by (simp add: classify_def Let_def)

lemma liveSession_simps:
  "isRecording liveSession" "audioBuffer liveSession = []" "bufferSize liveSession = 0"
  "maxBufferSize liveSession = 80000" "energyHistory liveSession = []"
  "energyHistorySize liveSession = 20" "silenceFrames liveSession = 0"
  "speechFrames liveSession = 0" "minSilenceFrames liveSession = 30"
  "backgroundNoise liveSession = - 6" "onAudioLevel liveSession = None"
  "onVAD liveSession = None" "onAudioChunk liveSession = Some (\<lambda>audioData. Returned)"
  "onError liveSession = Some (\<lambda>error. Returned)" "events liveSession = []"
  "vadThreshold (options liveSession) = 1 / 1000"
  "processor liveSession = Some 5" "analyser liveSession = Some 4"
  "microphone liveSession = Some 3" "audioContext liveSession = Some 2"
  "stream liveSession = Some 1"
  by (simp_all add: liveSession_def setOnAudioChunk_def setOnError_def newSession_def
        defaultOptions_def)

lemma calm_liveSession: "calm liveSession"
  by (simp add: calm_def quietListener_def liveSession_simps)

lemma liveSession_hears_one: "isSpeech (fst (performVAD liveSession [1]))"
  using frameEnergy_one_bounds
  by (simp add: performVAD_fst isSpeech_classify performVAD_snd liveSession_simps)

lemma accumulating_eq:
  "accumulating = liveSession\<lparr>energyHistory := [frameEnergy [1]], audioBuffer := [[1]],
       bufferSize := 1, speechFrames := 1, silenceFrames := 0\<rparr>"
  using liveSession_hears_one
  by (simp add: accumulating_def onaudioprocess_def processAudioChunk_quiet [OF calm_liveSession]
        performVAD_snd liveSession_simps Let_def)

lemma accumulating_simps:
  "isRecording accumulating" "audioBuffer accumulating = [[1]]" "bufferSize accumulating = 1"
  "maxBufferSize accumulating = 80000" "energyHistory accumulating = [frameEnergy [1]]"
  "energyHistorySize accumulating = 20" "silenceFrames accumulating = 0"
  "speechFrames accumulating = 1" "minSilenceFrames accumulating = 30"
  "backgroundNoise accumulating = - 6" "onAudioLevel accumulating = None"
  "onVAD accumulating = None" "onAudioChunk accumulating = Some (\<lambda>audioData. Returned)"
  "onError accumulating = Some (\<lambda>error. Returned)" "events accumulating = []"
  "vadThreshold (options accumulating) = 1 / 1000"
  "processor accumulating = Some 5" "analyser accumulating = Some 4"
  "microphone accumulating = Some 3" "audioContext accumulating = Some 2"
  "stream accumulating = Some 1"
  by (simp_all add: accumulating_eq liveSession_simps)

lemma calm_accumulating: "calm accumulating"
  by (simp add: calm_def quietListener_def accumulating_simps)

section \<open>The sample count and the buffer\<close>

text \<open>
  Claim C9. The running sample count \<open>bufferSize\<close> always equals the sum of the lengths
  of the chunks held in \<open>audioBuffer\<close>. The equation holds for a new session, where both
  are zero; it is preserved by the frame handler, by \<open>processAudioChunk\<close>, by the flush
  \<open>sendBufferedAudio\<close>, by \<open>stopRecording\<close> and by \<open>cleanup\<close>, whether or not a listener
  throws on the way; and after a flush that returns the buffer is empty and the count is
  zero.
\<close>

theorem bufferSize_is_buffered_sample_count:
  "bufferInv (newSession opts)
   \<and> audioBuffer (newSession opts) = [] \<and> bufferSize (newSession opts) = 0
   \<and> (bufferInv s \<longrightarrow>
        bufferInv (snd (onaudioprocess s d))
        \<and> bufferInv (snd (processAudioChunk s d))
        \<and> bufferInv (snd (sendBufferedAudio s))
        \<and> bufferInv (snd (stopRecording s))
        \<and> bufferInv (snd (cleanup s)))
   \<and> (bufferInv s \<and> fst (sendBufferedAudio s) = Returned \<longrightarrow>
        audioBuffer (snd (sendBufferedAudio s)) = []
        \<and> bufferSize (snd (sendBufferedAudio s)) = 0)"
  using bufferInv_onaudioprocess [of s d] bufferInv_processAudioChunk [of s d]
    bufferInv_sendBufferedAudio [of s] bufferInv_stopRecording [of s] bufferInv_cleanup [of s]
    sendBufferedAudio_flushed [of s]
  by (simp add: bufferInv_def newSession_def)

theorem bufferSize_is_buffered_sample_count_witness:
  "bufferInv accumulating \<and> audioBuffer accumulating = [[1]]
   \<and> fst (sendBufferedAudio accumulating) = Returned
   \<and> bufferInv (snd (onaudioprocess accumulating [0]))
   \<and> bufferInv (snd (cleanup accumulating))
   \<and> audioBuffer (snd (sendBufferedAudio accumulating)) = []
   \<and> bufferSize (snd (sendBufferedAudio accumulating)) = 0"
proof -
  have inv: "bufferInv accumulating"
    by (simp add: bufferInv_def accumulating_simps)
  have ret: "fst (sendBufferedAudio accumulating) = Returned"
    by (simp add: sendBufferedAudio_eq andThen_fst_cases invoke_fst invoke_snd accumulating_simps)
  show ?thesis
    using bufferSize_is_buffered_sample_count [of defaultOptions accumulating "[0]"] inv ret
    by (simp add: accumulating_simps)
qed

lemma since_append: "events s' = events s @ evs \<Longrightarrow> since s s' = evs"
  by (simp add: since_def)

lemma sendBufferedAudio_events:
  "events (snd (sendBufferedAudio s)) =
     events s @ (if audioBuffer s \<noteq> [] \<and> onAudioChunk s \<noteq> None
                 then [AudioChunkEvent (concat (audioBuffer s))] else [])"
  by (subst sendBufferedAudio_snd) simp

lemma stopRecording_events:
  "events (snd (stopRecording s)) =
     events s @ (if audioBuffer s \<noteq> [] \<and> onAudioChunk s \<noteq> None
                 then [AudioChunkEvent (concat (audioBuffer s))] else [])"
  by (simp add: stopRecording_eq sendBufferedAudio_events)

lemma sendBufferedAudio_resources:
  "processor (snd (sendBufferedAudio s)) = processor s"
  "analyser (snd (sendBufferedAudio s)) = analyser s"
  "microphone (snd (sendBufferedAudio s)) = microphone s"
  "audioContext (snd (sendBufferedAudio s)) = audioContext s"
  "stream (snd (sendBufferedAudio s)) = stream s"
  by (subst sendBufferedAudio_snd, simp)+

lemma stopRecording_resources:
  "processor (snd (stopRecording s)) = processor s"
  "analyser (snd (stopRecording s)) = analyser s"
  "microphone (snd (stopRecording s)) = microphone s"
  "audioContext (snd (stopRecording s)) = audioContext s"
  "stream (snd (stopRecording s)) = stream s"
  by (simp_all add: stopRecording_eq sendBufferedAudio_resources)

lemma releaseEvents_stopRecording: "releaseEvents (snd (stopRecording s)) = releaseEvents s"
  by (simp add: releaseEvents_def stopRecording_resources)

lemma cleanup_events:
  "events (snd (cleanup s)) =
     events (snd (stopRecording s))
       @ (if fst (stopRecording s) = Returned then releaseEvents s else [])"
  by (simp add: cleanup_eq releaseEvents_stopRecording)

lemma stopRecording_not_recording: "\<not> isRecording (snd (stopRecording s))"
  by (simp add: stopRecording_eq) (subst sendBufferedAudio_snd, simp)

lemma releaseEvents_isRelease: "e \<in> set (releaseEvents s) \<Longrightarrow> isRelease e"
  by (auto simp: releaseEvents_def split: option.splits)

lemma cleanup_closed: "closed s \<Longrightarrow> cleanup s = (Returned, s)"
  by (simp add: cleanup_eq stopRecording_eq closed_def released_def releaseEvents_def)

lemma cleanup_closes:
  assumes "fst (stopRecording s) = Returned"
  shows "fst (cleanup s) = Returned" and "closed (snd (cleanup s))"
proof -
  show "fst (cleanup s) = Returned" using assms by (simp add: cleanup_eq)
  have "audioBuffer (snd (stopRecording s)) = []"
    using assms by (simp add: stopRecording_eq split: if_splits)
      (subst sendBufferedAudio_snd, simp)
  then show "closed (snd (cleanup s))"
    using assms stopRecording_not_recording [of s]
    by (simp add: cleanup_eq closed_def released_def)
qed

section \<open>Stopping\<close>

text \<open>
  Claim C3. With a segment listener registered, \<open>stopRecording\<close> on a non-empty buffer
  hands the listener exactly one segment, the buffered chunks concatenated in the order
  they were appended, and on an empty buffer hands it none. \<open>stopRecording\<close> itself
  leaves the five device resources as they are; in \<open>cleanup\<close> the events of the stop
  come first and the device releases follow them, so the final segment is out before
  any resource is released.
\<close>

theorem stopRecording_final_segment:
  assumes "onAudioChunk s = Some listener"
  shows "(audioBuffer s \<noteq> [] \<longrightarrow>
            since s (snd (stopRecording s)) = [AudioChunkEvent (concat (audioBuffer s))]
            \<and> emitted (since s (snd (stopRecording s))) = [concat (audioBuffer s)])
       \<and> (audioBuffer s = [] \<longrightarrow> emitted (since s (snd (stopRecording s))) = [])
       \<and> processor (snd (stopRecording s)) = processor s
       \<and> analyser (snd (stopRecording s)) = analyser s
       \<and> microphone (snd (stopRecording s)) = microphone s
       \<and> audioContext (snd (stopRecording s)) = audioContext s
       \<and> stream (snd (stopRecording s)) = stream s
       \<and> since s (snd (cleanup s)) =
            since s (snd (stopRecording s))
              @ (if fst (stopRecording s) = Returned then releaseEvents s else [])
       \<and> (\<forall>e \<in> set (releaseEvents s). isRelease e)"
proof -
  have stop: "since s (snd (stopRecording s)) =
                (if audioBuffer s \<noteq> [] then [AudioChunkEvent (concat (audioBuffer s))] else [])"
    by (rule since_append) (simp add: stopRecording_events assms)
  have clean: "since s (snd (cleanup s)) =
                 since s (snd (stopRecording s))
                   @ (if fst (stopRecording s) = Returned then releaseEvents s else [])"
    unfolding stop by (rule since_append) (simp add: cleanup_events stopRecording_events assms)
  show ?thesis
    using clean releaseEvents_isRelease [of _ s]
    by (simp add: stop stopRecording_resources)
qed

theorem stopRecording_final_segment_witness:
  "onAudioChunk accumulating = Some (\<lambda>audioData. Returned)
   \<and> audioBuffer accumulating = [[1]]
   \<and> emitted (since accumulating (snd (stopRecording accumulating))) = [[1]]
   \<and> processor (snd (stopRecording accumulating)) = Some 5
   \<and> since accumulating (snd (cleanup accumulating)) =
        [AudioChunkEvent [1], ProcessorDisconnected 5, AnalyserDisconnected 4,
         MicrophoneDisconnected 3, ContextClosed 2, TracksStopped 1]
   \<and> emitted (since liveSession (snd (stopRecording liveSession))) = []"
proof -
  have ret: "fst (stopRecording accumulating) = Returned"
    by (simp add: stopRecording_eq sendBufferedAudio_eq andThen_fst_cases invoke_fst invoke_snd
          accumulating_simps)
  show ?thesis
    using stopRecording_final_segment [of accumulating "\<lambda>audioData. Returned"]
      stopRecording_final_segment [of liveSession "\<lambda>audioData. Returned"] ret
    by (simp add: accumulating_simps liveSession_simps releaseEvents_def)
qed

lemma halfInitialised_simps:
  "audioBuffer halfInitialised = []" "\<not> isRecording halfInitialised"
  "processor halfInitialised = None" "analyser halfInitialised = None"
  "microphone halfInitialised = None" "audioContext halfInitialised = Some 2"
  "stream halfInitialised = Some 1" "events halfInitialised = []"
  by (simp_all add: halfInitialised_def newSession_def)

lemma stopRecording_returns:
  "audioBuffer s = [] \<or> quietListener (onAudioChunk s) \<Longrightarrow> fst (stopRecording s) = Returned"
  by (auto simp: stopRecording_eq sendBufferedAudio_eq andThen_fst_cases invoke_fst
        quietListener_def split: option.splits)

lemma frameEnergy_spec: "frameEnergy data = spec_energy data"
  by (simp add: frameEnergy_def spec_energy_def spec_rms_def foldl_add_sum_list power2_eq_square)

lemma lastN_drop: "lastN n xs = drop (length xs - n) xs"
  by (simp add: lastN_def rev_take)

lemma classify_recentAvg:
  "foldl (\<lambda>a b. a + b) 0 (drop (length h - 5) h) / real (length (drop (length h - 5) h))
     = spec_recentAvg h"
  by (simp add: spec_recentAvg_def mean_def lastN_drop foldl_plus_sum_list)

lemma clamp_min_max: "min (max x 0) 1 = clamp x 0 1"
  by (auto simp: clamp_def min_def max_def)

lemma classify_spec:
  "classify s e =
     \<lparr> isSpeech = spec_isSpeech (backgroundNoise s) (energyHistory s) e (vadThreshold (options s)),
       confidence = spec_confidence (backgroundNoise s) (energyHistory s) (vadThreshold (options s)),
       energy = spec_recentAvg (energyHistory s) \<rparr>"
  unfolding classify_def Let_def classify_recentAvg clamp_min_max
  by (simp add: spec_isSpeech_def spec_confidence_def spec_threshold_def Let_def)

lemma clamp_unit: "0 \<le> clamp x 0 1 \<and> clamp x 0 1 \<le> 1"
  by (simp add: clamp_def)

lemma brokenSinkSession_simps:
  "audioBuffer brokenSinkSession = [[1]]"
  "onAudioChunk brokenSinkSession = Some (\<lambda>audioData. Raised (Error ''sink failed''))"
  "events brokenSinkSession = []"
  "processor brokenSinkSession = Some 5" "analyser brokenSinkSession = Some 4"
  "microphone brokenSinkSession = Some 3" "audioContext brokenSinkSession = Some 2"
  "stream brokenSinkSession = Some 1" "isRecording brokenSinkSession"
  by (simp_all add: brokenSinkSession_def setOnAudioChunk_def accumulating_simps)

lemma cleanup_brokenSink:
  "cleanup brokenSinkSession =
     (Raised (Error ''sink failed''),
      brokenSinkSession\<lparr>isRecording := False, events := [AudioChunkEvent [1]]\<rparr>)"
  by (simp add: cleanup_def stopRecording_eq sendBufferedAudio_eq invoke_def andThen_def
        brokenSinkSession_simps)

section \<open>Releasing the devices\<close>

text \<open>
  Claim C8, as the code has it. \<open>cleanup\<close> is idempotent: from a state that is already
  closed (nothing held, not recording, nothing buffered) it returns and leaves the
  session exactly as it was. It begins with \<open>stopRecording\<close> and has no \<open>try\<close>: when
  that stop returns, which it does whenever the buffer is empty (as after a failed
  \<open>initialize\<close> or \<open>startRecording\<close>) or the segment listener does not throw, then from
  any state, whatever subset of the five resources is held, \<open>cleanup\<close> leaves processor,
  analyser, microphone, audio context and stream released, performs one release for each
  resource that was held, and ends in a closed state, from which a second \<open>cleanup\<close>
  changes nothing.
\<close>

theorem cleanup_idempotent_and_releases_all:
  "(closed s \<longrightarrow> cleanup s = (Returned, s))
   \<and> (audioBuffer s = [] \<or> quietListener (onAudioChunk s) \<longrightarrow> fst (stopRecording s) = Returned)
   \<and> (fst (stopRecording s) = Returned \<longrightarrow>
        fst (cleanup s) = Returned
        \<and> released (snd (cleanup s))
        \<and> closed (snd (cleanup s))
        \<and> filter isRelease (since s (snd (cleanup s))) = releaseEvents s
        \<and> cleanup (snd (cleanup s)) = (Returned, snd (cleanup s)))"
proof -
  have ev: "events (snd (cleanup s)) =
              events s @ (if audioBuffer s \<noteq> [] \<and> onAudioChunk s \<noteq> None
                          then [AudioChunkEvent (concat (audioBuffer s))] else [])
                @ (if fst (stopRecording s) = Returned then releaseEvents s else [])"
    by (simp add: cleanup_events stopRecording_events)
  have rel: "filter isRelease (releaseEvents s) = releaseEvents s"
    by (simp add: releaseEvents_isRelease)
  have "fst (stopRecording s) = Returned \<Longrightarrow>
          filter isRelease (since s (snd (cleanup s))) = releaseEvents s"
    by (subst since_append [OF ev]) (simp add: rel)
  then show ?thesis
    using cleanup_closed [of s] cleanup_closes [of s] cleanup_closed [of "snd (cleanup s)"]
      stopRecording_returns [of s]
    by (auto simp: closed_def)
qed

theorem cleanup_idempotent_and_releases_all_witness:
  "closed (newSession defaultOptions)
   \<and> cleanup (newSession defaultOptions) = (Returned, newSession defaultOptions)
   \<and> audioBuffer halfInitialised = []
   \<and> fst (cleanup halfInitialised) = Returned
   \<and> released (snd (cleanup halfInitialised))
   \<and> filter isRelease (since halfInitialised (snd (cleanup halfInitialised)))
        = [ContextClosed 2, TracksStopped 1]
   \<and> cleanup (snd (cleanup halfInitialised)) = (Returned, snd (cleanup halfInitialised))
   \<and> quietListener (onAudioChunk accumulating)
   \<and> released (snd (cleanup accumulating))
   \<and> filter isRelease (since accumulating (snd (cleanup accumulating)))
        = [ProcessorDisconnected 5, AnalyserDisconnected 4, MicrophoneDisconnected 3,
           ContextClosed 2, TracksStopped 1]
   \<and> cleanup (snd (cleanup accumulating)) = (Returned, snd (cleanup accumulating))"
proof -
  have c: "closed (newSession defaultOptions)"
    by (simp add: closed_def released_def newSession_def)
  have q: "quietListener (onAudioChunk accumulating)"
    by (simp add: quietListener_def accumulating_simps)
  show ?thesis
    using cleanup_idempotent_and_releases_all [of "newSession defaultOptions"]
      cleanup_idempotent_and_releases_all [of halfInitialised]
      cleanup_idempotent_and_releases_all [of accumulating] c q
    by (simp add: halfInitialised_simps accumulating_simps releaseEvents_def)
qed

text \<open>
  The claim as stated fails. With the chunk \<open>[1]\<close> buffered and a segment listener that
  throws, \<open>cleanup\<close> is left by the listener's exception during the final flush: none of
  the five resources is released, the buffer keeps its chunk, and a second \<open>cleanup\<close>
  fails in the same way.
\<close>

theorem cleanup_aborts_when_segment_listener_throws:
  "fst (cleanup brokenSinkSession) = Raised (Error ''sink failed'')
   \<and> processor (snd (cleanup brokenSinkSession)) = Some 5
   \<and> analyser (snd (cleanup brokenSinkSession)) = Some 4
   \<and> microphone (snd (cleanup brokenSinkSession)) = Some 3
   \<and> audioContext (snd (cleanup brokenSinkSession)) = Some 2
   \<and> stream (snd (cleanup brokenSinkSession)) = Some 1
   \<and> filter isRelease (events (snd (cleanup brokenSinkSession))) = []
   \<and> audioBuffer (snd (cleanup brokenSinkSession)) = [[1]]
   \<and> fst (cleanup (snd (cleanup brokenSinkSession))) = Raised (Error ''sink failed'')
   \<and> processor (snd (cleanup (snd (cleanup brokenSinkSession)))) = Some 5
   \<and> stream (snd (cleanup (snd (cleanup brokenSinkSession)))) = Some 1"
proof -
  let ?s = "brokenSinkSession\<lparr>isRecording := False, events := [AudioChunkEvent [1]]\<rparr>"
  have again: "cleanup ?s =
      (Raised (Error ''sink failed''),
       ?s\<lparr>events := [AudioChunkEvent [1], AudioChunkEvent [1]]\<rparr>)"
    by (simp add: cleanup_def stopRecording_eq sendBufferedAudio_eq invoke_def andThen_def
          brokenSinkSession_simps)
  show ?thesis
    by (simp add: cleanup_brokenSink again brokenSinkSession_simps)
qed

section \<open>The detector\<close>

text \<open>
  Claim C4. The classification computed by \<open>performVAD\<close> is the formula of the
  specification: with \<open>e\<close> the log-domain RMS energy of the frame, \<open>recentAvg\<close> the mean
  of the last five history values, and \<open>threshold\<close> the larger of the noise estimate
  plus 0.5 and the logarithm of the configured threshold, the frame is speech exactly
  when \<open>recentAvg > threshold\<close> or \<open>e\<close> exceeds the noise estimate plus 0.3. The noise
  estimate and the history are the ones \<open>performVAD\<close> leaves in the session.
\<close>

theorem performVAD_isSpeech_formula:
  "isSpeech (fst (performVAD s data)) \<longleftrightarrow>
     spec_isSpeech (backgroundNoise (snd (performVAD s data)))
       (energyHistory (snd (performVAD s data))) (spec_energy data) (vadThreshold (options s))"
  by (simp add: performVAD_fst classify_spec performVAD_frame frameEnergy_spec)

lemma performVAD_history:
  "energyHistory (snd (performVAD s d)) =
     (if length (energyHistory s) + 1 > energyHistorySize s
      then tl (energyHistory s @ [frameEnergy d])
      else energyHistory s @ [frameEnergy d])"
  by (simp add: performVAD_snd)

lemma performVAD_noise:
  "backgroundNoise (snd (performVAD s d)) =
     (if length (energyHistory s) > 10 then tenthPercentile (energyHistory s)
      else backgroundNoise s)"
  by (simp add: performVAD_snd)

lemma performVAD_history_last:
  assumes "0 < energyHistorySize s"
  shows "energyHistory (snd (performVAD s d)) \<noteq> []"
    and "last (energyHistory (snd (performVAD s d))) = frameEnergy d"
proof -
  have "energyHistory s \<noteq> []" if "length (energyHistory s) + 1 > energyHistorySize s"
    using that assms by (cases "energyHistory s") simp_all
  then show "energyHistory (snd (performVAD s d)) \<noteq> []"
    and "last (energyHistory (snd (performVAD s d))) = frameEnergy d"
    by (auto simp: performVAD_history last_tl)
qed

lemma performVAD_energy:
  "energy (fst (performVAD s d)) = spec_recentAvg (energyHistory (snd (performVAD s d)))"
  by (simp add: performVAD_fst classify_spec)

lemma log10_milli: "log 10 (1 / 1000) = - 3"
proof -
  have "log 10 ((10::real) ^ 3) = real 3"
    by (rule log_pow_cancel) simp_all
  then show ?thesis by (simp add: log_divide_pos)
qed

lemma accumulating_hears_zero:
  "energy (fst (performVAD accumulating [0])) = (frameEnergy [1] - 10) / 2"
  "\<not> isSpeech (fst (performVAD accumulating [0]))"
  using frameEnergy_one_bounds
  by (simp_all add: performVAD_fst classify_spec performVAD_snd accumulating_simps
        spec_recentAvg_def spec_isSpeech_def spec_threshold_def mean_def lastN_def
        frameEnergy_zero log10_milli)

text \<open>
  Claim C10. The \<open>energy\<close> field of the result of \<open>performVAD\<close> is the mean of the last
  five entries (or of all of them while there are fewer) of the history after the
  current frame's energy was pushed, so the current frame is part of the average; it
  is not the frame's own energy, as the frame \<open>[0]\<close> after the frame \<open>[1]\<close> shows. The
  noise estimate that classifies the frame is taken from the history as it stood before
  the push: it does not depend on the current frame.
\<close>

theorem performVAD_energy_is_trailing_average:
  "(0 < energyHistorySize s \<longrightarrow>
      energyHistory (snd (performVAD s data)) \<noteq> []
      \<and> last (energyHistory (snd (performVAD s data))) = frameEnergy data)
   \<and> energy (fst (performVAD s data)) = mean (lastN 5 (energyHistory (snd (performVAD s data))))
   \<and> length (lastN 5 (energyHistory (snd (performVAD s data))))
        = min 5 (length (energyHistory (snd (performVAD s data))))
   \<and> energy (fst (performVAD accumulating [0])) \<noteq> frameEnergy [0]
   \<and> backgroundNoise (snd (performVAD s data)) =
        (if length (energyHistory s) > 10 then tenthPercentile (energyHistory s)
         else backgroundNoise s)
   \<and> (isSpeech (fst (performVAD s data)) \<longleftrightarrow>
        spec_isSpeech
          (if length (energyHistory s) > 10 then tenthPercentile (energyHistory s)
           else backgroundNoise s)
          (energyHistory (snd (performVAD s data))) (frameEnergy data)
          (vadThreshold (options s)))"
proof -
  have "energy (fst (performVAD accumulating [0])) \<noteq> frameEnergy [0]"
    using frameEnergy_one_bounds by (simp add: accumulating_hears_zero frameEnergy_zero)
  then show ?thesis
    using performVAD_history_last [of s data]
    by (simp add: performVAD_energy spec_recentAvg_def lastN_drop performVAD_noise
          performVAD_fst classify_spec performVAD_frame)
qed

theorem performVAD_energy_is_trailing_average_witness:
  "0 < energyHistorySize accumulating
   \<and> energyHistory (snd (performVAD accumulating [0])) = [frameEnergy [1], - 10]
   \<and> last (energyHistory (snd (performVAD accumulating [0]))) = frameEnergy [0]
   \<and> energy (fst (performVAD accumulating [0])) = (frameEnergy [1] + - 10) / 2
   \<and> backgroundNoise (snd (performVAD accumulating [0])) = - 6"
  using performVAD_energy_is_trailing_average [of accumulating "[0]"]
  by (simp add: accumulating_simps performVAD_history frameEnergy_zero mean_def lastN_def)

lemma undisturbed_refl: "undisturbed s s"
  by (simp add: undisturbed_def)

lemma undisturbed_invoke:
  "undisturbed s s' \<Longrightarrow> reported [ev] = [] \<Longrightarrow> undisturbed s (snd (invoke cb x ev s'))"
  by (simp add: invoke_snd undisturbed_def reported_append)

lemma undisturbed_performVAD: "undisturbed s s' \<Longrightarrow> undisturbed s (snd (performVAD s' d))"
  by (simp add: undisturbed_def performVAD_frame)

lemma undisturbed_sendBufferedAudio:
  "undisturbed s s' \<Longrightarrow> undisturbed s (snd (sendBufferedAudio s'))"
  by (subst sendBufferedAudio_snd) (simp add: undisturbed_def reported_append)

lemma undisturbed_processAudioChunk: "undisturbed s (snd (processAudioChunk s d))"
proof -
  let ?s1 = "snd (invoke (onAudioLevel s) (calculateAudioLevel d)
                     (AudioLevelEvent (calculateAudioLevel d)) s)"
  let ?v = "fst (performVAD ?s1 d)"
  let ?s2 = "snd (performVAD ?s1 d)"
  let ?s3 = "snd (invoke (onVAD ?s2) ?v (VADEvent ?v) ?s2)"
  have u1: "undisturbed s ?s1"
    by (rule undisturbed_invoke [OF undisturbed_refl]) simp
  have u3: "undisturbed s ?s3"
    by (rule undisturbed_invoke [OF undisturbed_performVAD [OF u1]]) simp
  have speech: "undisturbed s (?s3\<lparr>audioBuffer := audioBuffer ?s3 @ [d],
                  bufferSize := bufferSize ?s3 + length d,
                  speechFrames := speechFrames ?s3 + 1, silenceFrames := 0\<rparr>)"
    using u3 by (simp add: undisturbed_def)
  have silence: "undisturbed s (?s3\<lparr>silenceFrames := silenceFrames ?s3 + 1, speechFrames := 0\<rparr>)"
    using u3 by (simp add: undisturbed_def)
  show ?thesis
    unfolding processAudioChunk_def Let_def andThen_snd_cases
    using u1 u3 undisturbed_sendBufferedAudio [OF speech]
      undisturbed_sendBufferedAudio [OF silence] speech silence
    by (simp del: One_nat_def)
qed

lemma undisturbed_onaudioprocess: "undisturbed s (snd (onaudioprocess s d))"
  by (simp add: onaudioprocess_def undisturbed_processAudioChunk undisturbed_refl)

lemma onaudioprocess_calm: "calm s \<Longrightarrow> fst (onaudioprocess s d) = Returned"
  by (simp add: onaudioprocess_def processAudioChunk_quiet Let_def calm_def
        sendBufferedAudio_quiet performVAD_frame)

lemma processAudioChunk_level_raises:
  "onAudioLevel s = Some f \<Longrightarrow> f (calculateAudioLevel d) = Raised e \<Longrightarrow>
   processAudioChunk s d
     = (Raised e, s\<lparr>events := events s @ [AudioLevelEvent (calculateAudioLevel d)]\<rparr>)"
  by (simp add: processAudioChunk_def Let_def invoke_def andThen_def)

lemma invoke_Some: "invoke (Some f) x ev s = (f x, s\<lparr>events := events s @ [ev]\<rparr>)"
  by (simp add: invoke_def)

lemma processAudioChunk_vad_raises:
  assumes "quietListener (onAudioLevel s)" "onVAD s = Some g"
    and "g (fst (performVAD s d)) = Raised e"
  shows "fst (processAudioChunk s d) = Raised e"
    and "audioBuffer (snd (processAudioChunk s d)) = audioBuffer s"
  unfolding processAudioChunk_def Let_def invoke_quiet [OF assms(1)] andThen_Returned
  by (simp_all add: performVAD_events_update performVAD_frame assms(2,3) invoke_Some
        andThen_Raised)

lemma throwingSession_simps:
  "isRecording throwingSession" "onAudioLevel throwingSession = None"
  "onVAD throwingSession = Some (\<lambda>result. Raised (Error ''listener failed''))"
  "onError throwingSession = Some (\<lambda>error. Returned)"
  "events throwingSession = []" "processor throwingSession = Some 5"
  "stream throwingSession = Some 1"
  by (simp_all add: throwingSession_def setOnVAD_def liveSession_simps)

section \<open>Exceptions on the per-frame path\<close>

text \<open>
  Claim C2, as the code has it. The frame handler and \<open>processAudioChunk\<close> contain no
  exception handler. When every registered listener returns, the handler returns. An
  exception thrown by the \<open>onAudioLevel\<close> or the \<open>onVAD\<close> listener leaves the handler
  as it is. In every case \<open>onError\<close> is not invoked, the recording flag keeps its value
  and no device resource is released.
\<close>

theorem frame_handler_propagates_listener_exceptions:
  "(calm s \<longrightarrow> fst (onaudioprocess s d) = Returned)
   \<and> (isRecording s \<and> onAudioLevel s = Some f \<and> f (calculateAudioLevel d) = Raised e
        \<longrightarrow> fst (onaudioprocess s d) = Raised e)
   \<and> (isRecording s \<and> quietListener (onAudioLevel s) \<and> onVAD s = Some g
        \<and> g (fst (performVAD s d)) = Raised e
        \<longrightarrow> fst (onaudioprocess s d) = Raised e)
   \<and> reported (events (snd (onaudioprocess s d))) = reported (events s)
   \<and> isRecording (snd (onaudioprocess s d)) = isRecording s
   \<and> undisturbed s (snd (onaudioprocess s d))"
  using onaudioprocess_calm [of s d] processAudioChunk_level_raises [of s f d e]
    processAudioChunk_vad_raises(1) [of s g d e] undisturbed_onaudioprocess [of s d]
  by (auto simp: onaudioprocess_def undisturbed_def)

theorem frame_handler_propagates_listener_exceptions_witness:
  "calm liveSession \<and> fst (onaudioprocess liveSession [1]) = Returned
   \<and> isRecording throwingSession \<and> quietListener (onAudioLevel throwingSession)
   \<and> fst (onaudioprocess throwingSession [1]) = Raised (Error ''listener failed'')
   \<and> reported (events (snd (onaudioprocess throwingSession [1]))) = []
   \<and> isRecording (snd (onaudioprocess throwingSession [1]))
   \<and> fst (onaudioprocess
             (setOnAudioLevel (\<lambda>level. Raised (Error ''meter failed'')) liveSession) [1])
        = Raised (Error ''meter failed'')"
  using frame_handler_propagates_listener_exceptions
          [of liveSession "[1]" "\<lambda>level. Returned" "Error ''none''" "\<lambda>result. Returned"]
    frame_handler_propagates_listener_exceptions
          [of throwingSession "[1]" "\<lambda>level. Returned" "Error ''listener failed''"
              "\<lambda>result. Raised (Error ''listener failed'')"]
    frame_handler_propagates_listener_exceptions
          [of "setOnAudioLevel (\<lambda>level. Raised (Error ''meter failed'')) liveSession" "[1]"
              "\<lambda>level. Raised (Error ''meter failed'')" "Error ''meter failed''"
              "\<lambda>result. Returned"]
    calm_liveSession
  by (simp add: throwingSession_simps quietListener_def setOnAudioLevel_def liveSession_simps)


text \<open>
  The claim as stated fails: with a throwing VAD listener and an error listener
  registered, the exception leaves the handler, nothing is reported to \<open>onError\<close>, and
  the session goes on recording with its devices held.
\<close>

theorem frame_handler_does_not_catch:
  "onError throwingSession \<noteq> None
   \<and> fst (onaudioprocess throwingSession [1]) = Raised (Error ''listener failed'')
   \<and> reported (events (snd (onaudioprocess throwingSession [1]))) = []
   \<and> isRecording (snd (onaudioprocess throwingSession [1]))
   \<and> processor (snd (onaudioprocess throwingSession [1])) = Some 5
   \<and> stream (snd (onaudioprocess throwingSession [1])) = Some 1"
proof -
  have q: "quietListener (onAudioLevel throwingSession)"
    by (simp add: quietListener_def throwingSession_simps)
  have "fst (processAudioChunk throwingSession [1]) = Raised (Error ''listener failed'')"
    by (rule processAudioChunk_vad_raises(1) [OF q]) (simp_all add: throwingSession_simps)
  then show ?thesis
    using undisturbed_onaudioprocess [of throwingSession "[1]"]
    by (simp add: onaudioprocess_def undisturbed_def throwingSession_simps)
qed

section \<open>One frame in a session whose listeners return\<close>

lemma processAudioChunk_calm:
  assumes "calm s"
  shows "processAudioChunk s d =
    (Returned,
     (let v = fst (performVAD s d);
          s2 = (snd (performVAD s d))
                 \<lparr>events := events s
                     @ (if onAudioLevel s = None then [] else [AudioLevelEvent (calculateAudioLevel d)])
                     @ (if onVAD s = None then [] else [VADEvent v])\<rparr>
      in if isSpeech v then
           (let s4 = s2\<lparr>audioBuffer := audioBuffer s @ [d],
                        bufferSize := bufferSize s + length d,
                        speechFrames := speechFrames s + 1,
                        silenceFrames := 0\<rparr>
            in if maxBufferSize s \<le> bufferSize s + length d
               then s4\<lparr>events := events s4
                          @ (if onAudioChunk s = None then []
                             else [AudioChunkEvent (concat (audioBuffer s @ [d]))]),
                       audioBuffer := [], bufferSize := 0\<rparr>
               else s4)
         else
           (let s4 = s2\<lparr>silenceFrames := silenceFrames s + 1, speechFrames := 0\<rparr>
            in if minSilenceFrames s \<le> silenceFrames s + 1 \<and> audioBuffer s \<noteq> []
               then s4\<lparr>events := events s4
                          @ (if onAudioChunk s = None then []
                             else [AudioChunkEvent (concat (audioBuffer s))]),
                       audioBuffer := [], bufferSize := 0\<rparr>
               else s4)))"
proof (cases "onAudioChunk s")
  case None
  show ?thesis
    unfolding processAudioChunk_quiet [OF assms] Let_def
    by (simp add: sendBufferedAudio_eq invoke_def andThen_def None performVAD_frame)
next
  case (Some a)
  have "a x = Returned" for x
    using assms by (simp add: calm_def quietListener_def Some)
  then show ?thesis
    unfolding processAudioChunk_quiet [OF assms] Let_def
    by (simp add: sendBufferedAudio_eq invoke_def andThen_def Some performVAD_frame)
qed

lemma step_speech:
  assumes "calm s" "isRecording s" "isSpeech (fst (performVAD s d))"
  shows "audioBuffer (snd (onaudioprocess s d)) =
           (if maxBufferSize s \<le> bufferSize s + length d then [] else audioBuffer s @ [d])"
    and "bufferSize (snd (onaudioprocess s d)) =
           (if maxBufferSize s \<le> bufferSize s + length d then 0 else bufferSize s + length d)"
    and "segments (snd (onaudioprocess s d)) =
           segments s @ (if maxBufferSize s \<le> bufferSize s + length d \<and> onAudioChunk s \<noteq> None
                         then [concat (audioBuffer s @ [d])] else [])"
    and "silenceFrames (snd (onaudioprocess s d)) = 0"
    and "speechFrames (snd (onaudioprocess s d)) = speechFrames s + 1"
proof -
  note eq = onaudioprocess_def processAudioChunk_calm [OF assms(1)] Let_def performVAD_frame
  show "audioBuffer (snd (onaudioprocess s d)) =
           (if maxBufferSize s \<le> bufferSize s + length d then [] else audioBuffer s @ [d])"
    using assms(2,3) by (simp add: eq)
  show "bufferSize (snd (onaudioprocess s d)) =
           (if maxBufferSize s \<le> bufferSize s + length d then 0 else bufferSize s + length d)"
    using assms(2,3) by (simp add: eq)
  show "segments (snd (onaudioprocess s d)) =
           segments s @ (if maxBufferSize s \<le> bufferSize s + length d \<and> onAudioChunk s \<noteq> None
                         then [concat (audioBuffer s @ [d])] else [])"
    using assms(2,3) by (simp add: eq segments_def emitted_append)
  show "silenceFrames (snd (onaudioprocess s d)) = 0"
    using assms(2,3) by (simp add: eq)
  show "speechFrames (snd (onaudioprocess s d)) = speechFrames s + 1"
    using assms(2,3) by (simp add: eq)
qed

lemma step_silence:
  assumes "calm s" "isRecording s" "\<not> isSpeech (fst (performVAD s d))"
  shows "audioBuffer (snd (onaudioprocess s d)) =
           (if minSilenceFrames s \<le> silenceFrames s + 1 then [] else audioBuffer s)"
    and "bufferSize (snd (onaudioprocess s d)) =
           (if minSilenceFrames s \<le> silenceFrames s + 1 \<and> audioBuffer s \<noteq> [] then 0
            else bufferSize s)"
    and "segments (snd (onaudioprocess s d)) =
           segments s @ (if minSilenceFrames s \<le> silenceFrames s + 1 \<and> audioBuffer s \<noteq> []
                           \<and> onAudioChunk s \<noteq> None
                         then [concat (audioBuffer s)] else [])"
    and "silenceFrames (snd (onaudioprocess s d)) = silenceFrames s + 1"
    and "speechFrames (snd (onaudioprocess s d)) = 0"
proof -
  note eq = onaudioprocess_def processAudioChunk_calm [OF assms(1)] Let_def performVAD_frame
  show "audioBuffer (snd (onaudioprocess s d)) =
           (if minSilenceFrames s \<le> silenceFrames s + 1 then [] else audioBuffer s)"
    using assms(2,3) by (simp add: eq)
  show "bufferSize (snd (onaudioprocess s d)) =
           (if minSilenceFrames s \<le> silenceFrames s + 1 \<and> audioBuffer s \<noteq> [] then 0
            else bufferSize s)"
    using assms(2,3) by (simp add: eq)
  show "segments (snd (onaudioprocess s d)) =
           segments s @ (if minSilenceFrames s \<le> silenceFrames s + 1 \<and> audioBuffer s \<noteq> []
                           \<and> onAudioChunk s \<noteq> None
                         then [concat (audioBuffer s)] else [])"
    using assms(2,3) by (simp add: eq segments_def emitted_append)
  show "silenceFrames (snd (onaudioprocess s d)) = silenceFrames s + 1"
    using assms(2,3) by (simp add: eq)
  show "speechFrames (snd (onaudioprocess s d)) = 0"
    using assms(2,3) by (simp add: eq)
qed

lemma step_frame:
  assumes "calm s" "isRecording s"
  shows "calm (snd (onaudioprocess s d))"
    and "isRecording (snd (onaudioprocess s d))"
    and "maxBufferSize (snd (onaudioprocess s d)) = maxBufferSize s"
    and "minSilenceFrames (snd (onaudioprocess s d)) = minSilenceFrames s"
    and "energyHistorySize (snd (onaudioprocess s d)) = energyHistorySize s"
    and "onAudioChunk (snd (onaudioprocess s d)) = onAudioChunk s"
    and "options (snd (onaudioprocess s d)) = options s"
    and "energyHistory (snd (onaudioprocess s d)) = energyHistory (snd (performVAD s d))"
    and "backgroundNoise (snd (onaudioprocess s d)) = backgroundNoise (snd (performVAD s d))"
proof -
  note eq = onaudioprocess_def processAudioChunk_calm [OF assms(1)] Let_def performVAD_frame
  show "calm (snd (onaudioprocess s d))"
    using assms by (simp add: eq calm_def)
  show "isRecording (snd (onaudioprocess s d))"
    using assms by (simp add: eq)
  show "maxBufferSize (snd (onaudioprocess s d)) = maxBufferSize s"
    using assms by (simp add: eq)
  show "minSilenceFrames (snd (onaudioprocess s d)) = minSilenceFrames s"
    using assms by (simp add: eq)
  show "energyHistorySize (snd (onaudioprocess s d)) = energyHistorySize s"
    using assms by (simp add: eq)
  show "onAudioChunk (snd (onaudioprocess s d)) = onAudioChunk s"
    using assms by (simp add: eq)
  show "options (snd (onaudioprocess s d)) = options s"
    using assms by (simp add: eq)
  show "energyHistory (snd (onaudioprocess s d)) = energyHistory (snd (performVAD s d))"
    using assms by (simp add: eq)
  show "backgroundNoise (snd (onaudioprocess s d)) = backgroundNoise (snd (performVAD s d))"
    using assms by (simp add: eq)
qed

section \<open>Runs of frames\<close>

lemma run_append: "run s (fs @ gs) = run (run s fs) gs"
  by (induction fs arbitrary: s) simp_all

lemma run_snoc: "run s (fs @ [d]) = snd (onaudioprocess (run s fs) d)"
  by (simp add: run_append)

lemma allSpeech_append:
  "allSpeech s (fs @ gs) \<longleftrightarrow> allSpeech s fs \<and> allSpeech (run s fs) gs"
  by (induction fs arbitrary: s) simp_all

lemma heard_append: "heard s (fs @ gs) = heard s fs @ heard (run s fs) gs"
  by (induction fs arbitrary: s) simp_all

lemma run_frame:
  assumes "calm s" "isRecording s"
  shows "calm (run s fs) \<and> isRecording (run s fs)
         \<and> maxBufferSize (run s fs) = maxBufferSize s
         \<and> minSilenceFrames (run s fs) = minSilenceFrames s
         \<and> energyHistorySize (run s fs) = energyHistorySize s
         \<and> onAudioChunk (run s fs) = onAudioChunk s
         \<and> options (run s fs) = options s"
  using assms
proof (induction fs arbitrary: s)
  case Nil
  then show ?case by simp
next
  case (Cons d ds)
  show ?case
    using Cons.IH [OF step_frame(1,2) [OF Cons.prems]] step_frame(3-7) [OF Cons.prems]
    by simp
qed

text \<open>Speech frames pile up while the cap is not reached.\<close>

lemma accumulate:
  assumes "calm s" "isRecording s" "allSpeech s fs"
    and "bufferSize s + sum_list (map length fs) < maxBufferSize s"
  shows "audioBuffer (run s fs) = audioBuffer s @ fs
         \<and> bufferSize (run s fs) = bufferSize s + sum_list (map length fs)
         \<and> segments (run s fs) = segments s"
  using assms
proof (induction fs arbitrary: s)
  case Nil
  then show ?case by simp
next
  case (Cons d ds)
  let ?s' = "snd (onaudioprocess s d)"
  have sp: "isSpeech (fst (performVAD s d))" and rest: "allSpeech ?s' ds"
    using Cons.prems(3) by simp_all
  have small: "\<not> maxBufferSize s \<le> bufferSize s + length d"
    using Cons.prems(4) by simp
  note st = step_speech [OF Cons.prems(1,2) sp] step_frame [OF Cons.prems(1,2)]
  have "bufferSize ?s' + sum_list (map length ds) < maxBufferSize ?s'"
    using Cons.prems(4) small by (simp add: st)
  from Cons.IH [OF st(6,7) rest this] show ?case
    using small by (simp add: st)
qed

lemma steadyTone_simps:
  "length (steadyTone n) = n" "0 < n \<Longrightarrow> steadyTone n \<noteq> []"
  by (auto simp: steadyTone_def)

lemma frameEnergy_steadyTone: "0 < n \<Longrightarrow> frameEnergy (steadyTone n) = frameEnergy [1]"
  by (simp add: frameEnergy_def steadyTone_def foldl_add_sum_list sum_list_replicate)

lemma loud_frame_is_speech:
  "length (energyHistory s) \<le> 10 \<Longrightarrow> backgroundNoise s + 3 / 10 < frameEnergy d \<Longrightarrow>
   isSpeech (fst (performVAD s d))"
  by (simp add: performVAD_fst classify_spec spec_isSpeech_def performVAD_noise)

lemma segments_grow:
  assumes "calm s" "isRecording s"
  shows "\<exists>ys. segments (run s fs) = segments s @ ys"
  using assms
proof (induction fs arbitrary: s)
  case Nil
  then show ?case by simp
next
  case (Cons d ds)
  let ?s' = "snd (onaudioprocess s d)"
  obtain xs where xs: "segments ?s' = segments s @ xs"
    using step_speech(3) [OF Cons.prems, of d] step_silence(3) [OF Cons.prems, of d]
    by (cases "isSpeech (fst (performVAD s d))") blast+
  obtain ys where "segments (run ?s' ds) = segments ?s' @ ys"
    using Cons.IH [OF step_frame(1,2) [OF Cons.prems]] by blast
  then show ?case by (simp add: xs)
qed

lemma buffer_is_heard:
  assumes "calm s" "isRecording s" "onAudioChunk s \<noteq> None"
    and "segments (run s fs) = segments s"
  shows "audioBuffer (run s fs) = audioBuffer s @ heard s fs"
  using assms
proof (induction fs arbitrary: s)
  case Nil
  then show ?case by simp
next
  case (Cons d ds)
  let ?s' = "snd (onaudioprocess s d)"
  note fr = step_frame [OF Cons.prems(1,2), of d]
  obtain ys where ys: "segments (run ?s' ds) = segments ?s' @ ys"
    using segments_grow [OF fr(1,2)] by blast
  show ?case
  proof (cases "isSpeech (fst (performVAD s d))")
    case True
    note st = step_speech [OF Cons.prems(1,2) True]
    have quiet: "\<not> maxBufferSize s \<le> bufferSize s + length d" and same: "segments ?s' = segments s"
      using Cons.prems(3,4) ys by (auto simp: st split: if_splits)
    have "segments (run ?s' ds) = segments ?s'"
      using Cons.prems(4) same by simp
    from Cons.IH [OF fr(1,2) _ this] show ?thesis
      using True quiet Cons.prems(3) by (simp add: st fr)
  next
    case False
    note st = step_silence [OF Cons.prems(1,2) False]
    have quiet: "\<not> (minSilenceFrames s \<le> silenceFrames s + 1 \<and> audioBuffer s \<noteq> [])"
      and same: "segments ?s' = segments s"
      using Cons.prems(3,4) ys by (auto simp: st split: if_splits)
    have "segments (run ?s' ds) = segments ?s'"
      using Cons.prems(4) same by simp
    from Cons.IH [OF fr(1,2) _ this] show ?thesis
      using False quiet Cons.prems(3) by (auto simp: st fr)
  qed
qed

section \<open>The full-buffer flush\<close>

text \<open>
  Claim C5. Take a recording session with an empty buffer, a registered segment
  listener and listeners that return, and feed it frames that are all classified as
  speech, none of them empty, whose lengths add up to exactly \<open>maxBufferSize\<close>. Then
  exactly one segment is emitted; it is emitted by the last frame, the one with which
  the sample count reaches \<open>maxBufferSize\<close>; it is the concatenation of all the frames
  and has \<open>maxBufferSize\<close> samples; and the buffer is empty afterwards.
\<close>

theorem full_buffer_flushes_once:
  assumes "calm s" and "isRecording s" and "onAudioChunk s = Some listener"
    and "audioBuffer s = []" and "bufferSize s = 0"
    and "allSpeech s fs"
    and "\<forall>d \<in> set fs. d \<noteq> []"
    and "sum_list (map length fs) = maxBufferSize s" and "0 < maxBufferSize s"
  shows "segments (run s fs) = segments s @ [concat fs]
         \<and> length (concat fs) = maxBufferSize s
         \<and> segments (run s (butlast fs)) = segments s
         \<and> bufferSize (run s (butlast fs)) + length (last fs) = maxBufferSize s
         \<and> audioBuffer (run s fs) = [] \<and> bufferSize (run s fs) = 0"
proof -
  have ne: "fs \<noteq> []" using assms(8,9) by auto
  then obtain gs d where fs: "fs = gs @ [d]"
    by (metis rev_exhaust)
  have d: "d \<noteq> []" using assms(7) fs by simp
  have sp: "allSpeech s gs" "isSpeech (fst (performVAD (run s gs) d))"
    using assms(6) by (simp_all add: fs allSpeech_append)
  have total: "sum_list (map length gs) + length d = maxBufferSize s"
    using assms(8) by (simp add: fs)
  moreover have "0 < length d" using d by simp
  ultimately have below: "bufferSize s + sum_list (map length gs) < maxBufferSize s"
    using assms(5) by linarith
  note acc = accumulate [OF assms(1,2) sp(1) below]
  note fr = run_frame [OF assms(1,2), of gs]
  have calm': "calm (run s gs)" and rec': "isRecording (run s gs)"
    using fr by simp_all
  note st = step_speech [OF calm' rec' sp(2)]
  have len: "length (concat fs) = maxBufferSize s"
    using assms(8) by (simp add: length_concat)
  show ?thesis
    using acc fr total len
    by (simp add: fs run_snoc st assms(3,4,5))
qed

theorem full_buffer_flushes_once_witness:
  "calm liveSession \<and> isRecording liveSession
   \<and> audioBuffer liveSession = [] \<and> bufferSize liveSession = 0
   \<and> allSpeech liveSession [steadyTone 40000, steadyTone 40000]
   \<and> sum_list (map length [steadyTone 40000, steadyTone 40000]) = maxBufferSize liveSession
   \<and> segments (run liveSession [steadyTone 40000, steadyTone 40000])
        = [steadyTone 40000 @ steadyTone 40000]
   \<and> length (steadyTone 40000 @ steadyTone 40000) = 80000
   \<and> segments (run liveSession [steadyTone 40000]) = []
   \<and> audioBuffer (run liveSession [steadyTone 40000, steadyTone 40000]) = []"
proof -
  let ?f = "steadyTone 40000"
  let ?s1 = "snd (onaudioprocess liveSession ?f)"
  have e: "frameEnergy ?f = frameEnergy [1]"
    by (rule frameEnergy_steadyTone) simp
  have sp1: "isSpeech (fst (performVAD liveSession ?f))"
    using frameEnergy_one_bounds
    by (intro loud_frame_is_speech) (simp_all add: liveSession_simps e)
  note fr = step_frame [OF calm_liveSession liveSession_simps(1), of ?f]
  have sp2: "isSpeech (fst (performVAD ?s1 ?f))"
    using frameEnergy_one_bounds
    by (intro loud_frame_is_speech)
       (simp_all add: fr performVAD_history performVAD_noise liveSession_simps e)
  have all: "allSpeech liveSession [?f, ?f]"
    using sp1 sp2 by simp
  have ne: "\<forall>d \<in> set [?f, ?f]. d \<noteq> []"
    by (simp add: steadyTone_simps)
  have total: "sum_list (map length [?f, ?f]) = maxBufferSize liveSession"
    by (simp add: steadyTone_simps liveSession_simps)
  show ?thesis
    using full_buffer_flushes_once [OF calm_liveSession liveSession_simps(1)
        liveSession_simps(13) liveSession_simps(2) liveSession_simps(3) all ne total]
      all calm_liveSession
    by (simp add: liveSession_simps steadyTone_simps segments_def)
qed

section \<open>Digital silence after speech\<close>

lemma sum_list_constant: "set xs \<subseteq> {c} \<Longrightarrow> sum_list xs = real (length xs) * c"
  by (induction xs) (simp_all add: algebra_simps)

lemma mean_constant: "set xs \<subseteq> {c} \<Longrightarrow> xs \<noteq> [] \<Longrightarrow> mean xs = c"
  by (simp add: mean_def sum_list_constant)

lemma mean_tail_silent:
  assumes "a < 1" "set r \<subseteq> {- 10}" "r \<noteq> []" "j < length (a # r)"
  shows "mean (drop j (a # r)) \<le> - 3"
proof (cases j)
  case 0
  have "sum_list (a # r) = a + real (length r) * (- 10)"
    using assms(2) by (simp add: sum_list_constant)
  moreover have "1 \<le> real (length r)"
    using assms(3) by (cases r) simp_all
  ultimately have "sum_list (a # r) \<le> - 3 * (1 + real (length r))"
    using assms(1) by simp
  then show ?thesis
    using 0 by (simp add: mean_def field_simps)
next
  case (Suc i)
  have "set (drop i r) \<subseteq> {- 10}"
    using assms(2) set_drop_subset [of i r] by blast
  moreover have "drop i r \<noteq> []"
    using assms(4) Suc by simp
  ultimately show ?thesis
    using Suc by (simp add: mean_constant)
qed

lemma tenthPercentile_member:
  "h \<noteq> [] \<Longrightarrow> tenthPercentile h \<in> set h"
proof -
  assume "h \<noteq> []"
  then have "length h div 10 < length (sort h)"
    by (cases h) simp_all
  then have "sort h ! (length h div 10) \<in> set (sort h)"
    by (rule nth_mem)
  then show ?thesis by (simp add: tenthPercentile_def)
qed

lemma hushed_entries: "hushed s \<Longrightarrow> x \<in> set (energyHistory s) \<Longrightarrow> - 10 \<le> x"
  by (cases "energyHistory s") (auto simp: hushed_def)

lemma hushed_performVAD:
  assumes "hushed s"
  shows "\<not> isSpeech (fst (performVAD s [0]))" and "hushed (snd (performVAD s [0]))"
proof -
  obtain a t where h: "energyHistory s = a # t"
    using assms by (cases "energyHistory s") (simp_all add: hushed_def)
  have a: "- 10 \<le> a" "a < 1" and t: "set t \<subseteq> {- 10}"
    and size: "2 \<le> energyHistorySize s" and thr: "vadThreshold (options s) = 1 / 1000"
    and bn: "- 10 \<le> backgroundNoise s"
    using assms by (simp_all add: hushed_def h)
  let ?s' = "snd (performVAD s [0])"
  let ?h' = "energyHistory ?s'"
  have noise: "- 10 \<le> backgroundNoise ?s'"
    using bn hushed_entries [OF assms tenthPercentile_member [of "energyHistory s"]]
    by (simp add: performVAD_noise h)
  have t': "set (t @ [- 10]) \<subseteq> {- 10}" using t by simp
  have avg: "spec_recentAvg ?h' \<le> - 3" and hist: "?h' \<noteq> [] \<and> - 10 \<le> hd ?h' \<and> hd ?h' < 1
      \<and> set (tl ?h') \<subseteq> {- 10}"
  proof -
    show "spec_recentAvg ?h' \<le> - 3"
    proof (cases "length (energyHistory s) + 1 > energyHistorySize s")
      case True
      then have eq: "?h' = t @ [- 10]"
        by (simp add: performVAD_history h frameEnergy_zero)
      have "set (drop (length ?h' - 5) ?h') \<subseteq> {- 10}"
        unfolding eq using t' set_drop_subset [of _ "t @ [- 10]"] by blast
      moreover have "drop (length ?h' - 5) ?h' \<noteq> []"
        by (simp add: eq)
      ultimately show ?thesis
        by (simp add: spec_recentAvg_def lastN_drop mean_constant)
    next
      case False
      then have eq: "?h' = a # (t @ [- 10])"
        by (simp add: performVAD_history h frameEnergy_zero)
      have "mean (drop (length ?h' - 5) (a # (t @ [- 10]))) \<le> - 3"
        by (rule mean_tail_silent [OF a(2) t']) (simp_all add: eq)
      then show ?thesis
        by (simp add: spec_recentAvg_def lastN_drop eq)
    qed
    show "?h' \<noteq> [] \<and> - 10 \<le> hd ?h' \<and> hd ?h' < 1 \<and> set (tl ?h') \<subseteq> {- 10}"
      using a t by (cases t) (auto simp: performVAD_history h frameEnergy_zero)
  qed
  show "\<not> isSpeech (fst (performVAD s [0]))"
    using avg noise
    by (simp add: performVAD_fst classify_spec spec_isSpeech_def spec_threshold_def thr
          log10_milli frameEnergy_zero performVAD_frame)
  show "hushed ?s'"
    using hist noise size thr by (simp add: hushed_def performVAD_frame)
qed

lemma hushed_onaudioprocess:
  assumes "calm s" "isRecording s" "hushed s"
  shows "hushed (snd (onaudioprocess s [0]))"
  using hushed_performVAD(2) [OF assms(3)]
  by (simp add: hushed_def step_frame [OF assms(1,2), of "[0]"] performVAD_frame)

lemma hushed_run:
  assumes "calm s" "isRecording s" "hushed s"
    and "silenceFrames s + k < minSilenceFrames s"
  shows "hushed (run s (replicate k [0]))
         \<and> audioBuffer (run s (replicate k [0])) = audioBuffer s
         \<and> segments (run s (replicate k [0])) = segments s
         \<and> silenceFrames (run s (replicate k [0])) = silenceFrames s + k
         \<and> heard s (replicate k [0]) = []"
  using assms
proof (induction k arbitrary: s)
  case 0
  then show ?case by simp
next
  case (Suc k)
  let ?s' = "snd (onaudioprocess s [0])"
  have sil: "\<not> isSpeech (fst (performVAD s [0]))"
    by (rule hushed_performVAD(1) [OF Suc.prems(3)])
  note st = step_silence [OF Suc.prems(1,2) sil] step_frame [OF Suc.prems(1,2), of "[0]"]
  have below: "\<not> minSilenceFrames s \<le> silenceFrames s + 1"
    using Suc.prems(4) by simp
  have "silenceFrames ?s' + k < minSilenceFrames ?s'"
    using Suc.prems(4) by (simp add: st)
  from Suc.IH [OF st(6,7) hushed_onaudioprocess [OF Suc.prems(1-3)] this]
  show ?case
    using sil below by (simp add: st)
qed

lemma hushed_accumulating: "hushed accumulating"
  using frameEnergy_one_bounds by (simp add: hushed_def accumulating_simps)

lemma accumulating_pause:
  "k < 30 \<Longrightarrow>
   hushed (run accumulating (replicate k [0]))
   \<and> audioBuffer (run accumulating (replicate k [0])) = [[1]]
   \<and> segments (run accumulating (replicate k [0])) = []
   \<and> silenceFrames (run accumulating (replicate k [0])) = k
   \<and> heard accumulating (replicate k [0]) = []"
  using hushed_run [OF calm_accumulating accumulating_simps(1) hushed_accumulating, of k]
  by (simp add: accumulating_simps segments_def)

lemma run_liveSession_one: "run liveSession ([1] # fs) = run accumulating fs"
  by (simp add: accumulating_def)

lemma heard_liveSession_one: "heard liveSession ([1] # fs) = [1] # heard accumulating fs"
  using liveSession_hears_one by (simp add: accumulating_def)

section \<open>The flush on sustained silence\<close>

text \<open>
  Claim C1, as the code has it. Only frames classified as speech are appended to the
  buffer; a frame classified as silence is never buffered, whether or not the silence
  threshold has been reached. So for a recording session with a registered segment
  listener and listeners that return, which starts with an empty buffer and processes
  frames without a flush until the buffer is non-empty: the buffer holds exactly the
  frames classified as speech, in order; a further silence frame below the threshold
  leaves buffer and emitted segments as they are; and the silence frame with which
  \<open>silenceFrames\<close> reaches \<open>minSilenceFrames\<close> emits one segment, the concatenation of
  the speech frames, and empties the buffer.
\<close>

theorem silence_flush_emits_speech_frames_only:
  assumes "calm s" and "isRecording s" and "onAudioChunk s = Some listener"
    and "audioBuffer s = []"
    and "segments (run s fs) = segments s"
    and "audioBuffer (run s fs) \<noteq> []"
    and "\<not> isSpeech (fst (performVAD (run s fs) d))"
  shows "audioBuffer (run s fs) = heard s fs
     \<and> (silenceFrames (run s fs) + 1 < minSilenceFrames s \<longrightarrow>
          audioBuffer (run s (fs @ [d])) = heard s fs
          \<and> segments (run s (fs @ [d])) = segments s)
     \<and> (minSilenceFrames s \<le> silenceFrames (run s fs) + 1 \<longrightarrow>
          segments (run s (fs @ [d])) = segments s @ [concat (heard s fs)]
          \<and> audioBuffer (run s (fs @ [d])) = [])
     \<and> heard s (fs @ [d]) = heard s fs"
proof -
  have reg: "onAudioChunk s \<noteq> None" using assms(3) by simp
  note fr = run_frame [OF assms(1,2), of fs]
  have calm': "calm (run s fs)" and rec': "isRecording (run s fs)"
    using fr by simp_all
  note st = step_silence [OF calm' rec' assms(7)]
  have buf: "audioBuffer (run s fs) = heard s fs"
    using buffer_is_heard [OF assms(1,2) reg assms(5)] assms(4) by simp
  show ?thesis
    using assms(5,6,7) fr buf
    by (simp add: run_snoc st heard_append assms(3))
qed

theorem silence_flush_emits_speech_frames_only_witness:
  "calm liveSession \<and> isRecording liveSession \<and> audioBuffer liveSession = []
   \<and> segments (run liveSession ([1] # replicate 29 [0])) = segments liveSession
   \<and> audioBuffer (run liveSession ([1] # replicate 29 [0])) = [[1]]
   \<and> \<not> isSpeech (fst (performVAD (run liveSession ([1] # replicate 29 [0])) [0]))
   \<and> minSilenceFrames liveSession \<le> silenceFrames (run liveSession ([1] # replicate 29 [0])) + 1
   \<and> heard liveSession ([1] # replicate 29 [0]) = [[1]]
   \<and> segments (run liveSession (([1] # replicate 29 [0]) @ [[0]])) = [[1]]
   \<and> audioBuffer (run liveSession (([1] # replicate 29 [0]) @ [[0]])) = []
   \<and> silenceFrames (run liveSession [[1]]) + 1 < minSilenceFrames liveSession
   \<and> audioBuffer (run liveSession ([[1]] @ [[0]])) = [[1]]"
proof -
  let ?fs = "[1] # replicate 29 [0]"
  have p29: "hushed (run accumulating (replicate 29 [0]))
      \<and> audioBuffer (run accumulating (replicate 29 [0])) = [[1]]
      \<and> segments (run accumulating (replicate 29 [0])) = []
      \<and> silenceFrames (run accumulating (replicate 29 [0])) = 29
      \<and> heard accumulating (replicate 29 [0]) = []"
    by (rule accumulating_pause) simp
  have seg: "segments (run liveSession ?fs) = segments liveSession"
    unfolding run_liveSession_one using p29 by (simp add: segments_def liveSession_simps)
  have buf: "audioBuffer (run liveSession ?fs) \<noteq> []"
    unfolding run_liveSession_one using p29 by simp
  have sil: "\<not> isSpeech (fst (performVAD (run liveSession ?fs) [0]))"
    unfolding run_liveSession_one using p29 hushed_performVAD(1) by blast
  have seg1: "segments (run liveSession [[1]]) = segments liveSession"
    using accumulating_pause [of 0]
    unfolding run_liveSession_one by (simp add: segments_def liveSession_simps)
  have buf1: "audioBuffer (run liveSession [[1]]) \<noteq> []"
    unfolding run_liveSession_one by (simp add: accumulating_simps)
  have sil1: "\<not> isSpeech (fst (performVAD (run liveSession [[1]]) [0]))"
    using hushed_performVAD(1) [OF hushed_accumulating]
    unfolding run_liveSession_one by simp
  have h29: "heard liveSession ?fs = [[1]]"
    unfolding heard_liveSession_one using p29 by simp
  have s29: "silenceFrames (run liveSession ?fs) = 29"
    unfolding run_liveSession_one using p29 by simp
  have h1: "heard liveSession [[1]] = [[1]]"
    unfolding heard_liveSession_one by simp
  have s1: "silenceFrames (run liveSession [[1]]) = 0"
    unfolding run_liveSession_one by (simp add: accumulating_simps)
  show ?thesis
    using silence_flush_emits_speech_frames_only
            [OF calm_liveSession liveSession_simps(1) liveSession_simps(13)
                liveSession_simps(2) seg buf sil]
      silence_flush_emits_speech_frames_only
            [OF calm_liveSession liveSession_simps(1) liveSession_simps(13)
                liveSession_simps(2) seg1 buf1 sil1]
      calm_liveSession seg sil
    unfolding h29 s29 h1 s1
    by (simp add: liveSession_simps segments_def del: run.simps)
qed

text \<open>
  The claim as stated fails. After the speech frame \<open>[1]\<close> the session is accumulating;
  the silence frame \<open>[0]\<close> is processed below the threshold and is not in the buffer
  afterwards. After 29 silence frames nothing has been emitted, and the thirtieth emits
  the segment \<open>[1]\<close>: one sample, none of the thirty trailing silence frames.
\<close>

theorem trailing_silence_is_not_buffered:
  "audioBuffer accumulating = [[1]]
   \<and> \<not> isSpeech (fst (performVAD accumulating [0]))
   \<and> silenceFrames accumulating + 1 < minSilenceFrames accumulating
   \<and> audioBuffer (snd (onaudioprocess accumulating [0])) = [[1]]
   \<and> silenceFrames (run liveSession ([1] # replicate 29 [0])) = 29
   \<and> segments (run liveSession ([1] # replicate 29 [0])) = []
   \<and> segments (run liveSession (([1] # replicate 29 [0]) @ [[0]])) = [[1]]"
proof -
  let ?s = "run accumulating (replicate 29 [0])"
  have p29: "hushed ?s \<and> audioBuffer ?s = [[1]] \<and> segments ?s = []
      \<and> silenceFrames ?s = 29 \<and> heard accumulating (replicate 29 [0]) = []"
    by (rule accumulating_pause) simp
  note fr = run_frame [OF calm_accumulating accumulating_simps(1), of "replicate 29 [0]"]
  have c: "calm ?s" and r: "isRecording ?s" using fr by simp_all
  have sil: "\<not> isSpeech (fst (performVAD ?s [0]))"
    using p29 hushed_performVAD(1) by blast
  have "segments (snd (onaudioprocess ?s [0])) = [[1]]"
    using p29 fr by (simp add: step_silence(3) [OF c r sil] accumulating_simps)
  then have last: "segments (run liveSession (([1] # replicate 29 [0]) @ [[0]])) = [[1]]"
    unfolding run_snoc run_liveSession_one by simp
  have first: "audioBuffer (snd (onaudioprocess accumulating [0])) = [[1]]"
    by (simp add: step_silence(1) [OF calm_accumulating accumulating_simps(1)
          accumulating_hears_zero(2)] accumulating_simps)
  show ?thesis
    using p29 last first accumulating_hears_zero(2)
    unfolding run_liveSession_one by (simp add: accumulating_simps)
qed

section \<open>The noise estimate on a constant stream\<close>

lemma tenthPercentile_replicate: "0 < n \<Longrightarrow> tenthPercentile (replicate n c) = c"
proof -
  assume "0 < n"
  then have "n div 10 < n" by simp
  moreover have "sort (replicate n c) = replicate n c"
    by (rule sorted_sort_id) simp
  ultimately show ?thesis by (simp add: tenthPercentile_def)
qed

lemma constant_push:
  assumes "energyHistory s = replicate m c" "m \<le> energyHistorySize s" "frameEnergy d = c"
  shows "energyHistory (snd (performVAD s d)) = replicate (min (m + 1) (energyHistorySize s)) c"
proof -
  have "replicate m c @ [c] = replicate (Suc m) c"
    by (simp add: replicate_append_same)
  then show ?thesis
    using assms by (auto simp: performVAD_history min_def)
qed

lemma constant_run:
  assumes "calm s" "isRecording s" "energyHistory s = replicate m c"
    and "m \<le> energyHistorySize s" and "\<forall>d \<in> set fs. frameEnergy d = c"
  shows "energyHistory (run s fs) = replicate (min (m + length fs) (energyHistorySize s)) c"
  using assms
proof (induction fs arbitrary: s m)
  case Nil
  then show ?case by simp
next
  case (Cons d ds)
  let ?s' = "snd (onaudioprocess s d)"
  let ?m' = "min (m + 1) (energyHistorySize s)"
  note fr = step_frame [OF Cons.prems(1,2), of d]
  have h: "energyHistory ?s' = replicate ?m' c"
    using constant_push [OF Cons.prems(3,4)] Cons.prems(5) by (simp add: fr)
  have le: "?m' \<le> energyHistorySize ?s'" by (simp add: fr)
  have rest: "\<forall>d \<in> set ds. frameEnergy d = c" using Cons.prems(5) by simp
  have "min (?m' + length ds) (energyHistorySize s) = min (m + length (d # ds)) (energyHistorySize s)"
    by simp
  with Cons.IH [OF fr(1,2) h le rest] show ?case
    by (simp add: fr)
qed

lemma noise_waits:
  assumes "calm s" "isRecording s" "length (energyHistory s) + length fs \<le> 11"
  shows "backgroundNoise (run s fs) = backgroundNoise s
         \<and> length (energyHistory (run s fs)) \<le> length (energyHistory s) + length fs"
  using assms
proof (induction fs arbitrary: s)
  case Nil
  then show ?case by simp
next
  case (Cons d ds)
  let ?s' = "snd (onaudioprocess s d)"
  note fr = step_frame [OF Cons.prems(1,2), of d]
  have short: "\<not> 10 < length (energyHistory s)" using Cons.prems(3) by simp
  have len: "length (energyHistory ?s') \<le> length (energyHistory s) + 1"
    by (simp add: fr performVAD_history)
  have bn: "backgroundNoise ?s' = backgroundNoise s"
    using short by (simp add: fr performVAD_noise)
  have "length (energyHistory ?s') + length ds \<le> 11"
    using len Cons.prems(3) by simp
  from Cons.IH [OF fr(1,2) this] show ?case
    using len bn by simp
qed

text \<open>
  Claim C6, as the code has it. \<open>performVAD\<close> refreshes the estimate before it pushes
  the frame's energy, and only when the history then holds more than 10 entries; the
  refreshed value is the entry at one tenth of the length of the sorted snapshot. A
  session that starts with an empty history and is fed frames of one energy \<open>c\<close>
  therefore has the estimate \<open>c\<close> after more than 11 frames (the twelfth frame is the
  first to find 11 entries), where \<open>c\<close> is also the tenth-percentile value of the
  history; up to and including 11 frames the estimate still has its initial value.
\<close>

theorem noise_estimate_of_constant_stream:
  assumes "calm s" and "isRecording s" and "energyHistory s = []"
    and "10 < energyHistorySize s" and "\<forall>d \<in> set fs. frameEnergy d = c"
  shows "(11 < length fs \<longrightarrow>
            backgroundNoise (run s fs) = c
            \<and> backgroundNoise (run s fs) = tenthPercentile (energyHistory (run s (butlast fs)))
            \<and> tenthPercentile (energyHistory (run s fs)) = c)
       \<and> (length fs \<le> 11 \<longrightarrow> backgroundNoise (run s fs) = backgroundNoise s)
       \<and> (length (energyHistory s') \<le> 10 \<longrightarrow>
            backgroundNoise (snd (performVAD s' d')) = backgroundNoise s')
       \<and> (10 < length (energyHistory s') \<longrightarrow>
            backgroundNoise (snd (performVAD s' d')) = tenthPercentile (energyHistory s'))"
proof -
  have start: "energyHistory s = replicate 0 c" using assms(3) by simp
  have hist: "energyHistory (run s gs) = replicate (min (length gs) (energyHistorySize s)) c"
    if "\<forall>d \<in> set gs. frameEnergy d = c" for gs
    using constant_run [OF assms(1,2) start _ that] by simp
  have long: "backgroundNoise (run s fs) = c
      \<and> backgroundNoise (run s fs) = tenthPercentile (energyHistory (run s (butlast fs)))
      \<and> tenthPercentile (energyHistory (run s fs)) = c" if "11 < length fs"
  proof -
    from that have "fs \<noteq> []" by auto
    then obtain gs d where fs: "fs = gs @ [d]" by (metis rev_exhaust)
    have gs: "\<forall>d \<in> set gs. frameEnergy d = c" using assms(5) fs by simp
    let ?n = "min (length gs) (energyHistorySize s)"
    have n: "10 < ?n" using that assms(4) fs by simp
    note fr = run_frame [OF assms(1,2), of gs]
    have c': "calm (run s gs)" and r': "isRecording (run s gs)" using fr by simp_all
    have "backgroundNoise (run s fs) = tenthPercentile (energyHistory (run s gs))"
      using n by (simp add: fs run_snoc step_frame(9) [OF c' r'] performVAD_noise hist [OF gs])
    moreover have "0 < ?n" using n by linarith
    then have "tenthPercentile (energyHistory (run s gs)) = c"
      unfolding hist [OF gs] by (rule tenthPercentile_replicate)
    moreover have "0 < min (length fs) (energyHistorySize s)"
      using that assms(4) by linarith
    then have "tenthPercentile (energyHistory (run s fs)) = c"
      unfolding hist [OF assms(5)] by (rule tenthPercentile_replicate)
    ultimately show ?thesis by (simp add: fs)
  qed
  have short: "backgroundNoise (run s fs) = backgroundNoise s" if "length fs \<le> 11"
    using noise_waits [OF assms(1,2), of fs] that assms(3) by simp
  show ?thesis
    using long short by (auto simp: performVAD_noise)
qed

theorem noise_estimate_of_constant_stream_witness:
  "calm liveSession \<and> isRecording liveSession \<and> energyHistory liveSession = []
   \<and> 10 < energyHistorySize liveSession
   \<and> frameEnergy [0] = - 10
   \<and> 11 < length (replicate 12 [0] :: frame list)
   \<and> backgroundNoise (run liveSession (replicate 12 [0])) = - 10
   \<and> tenthPercentile (energyHistory (run liveSession (replicate 12 [0]))) = - 10
   \<and> backgroundNoise (run liveSession (replicate 11 [0])) = backgroundNoise liveSession
   \<and> length (energyHistory accumulating) \<le> 10
   \<and> backgroundNoise (snd (performVAD accumulating [0])) = backgroundNoise accumulating"
proof -
  have c12: "\<forall>d \<in> set (replicate 12 [0]). frameEnergy d = - 10"
    and c11: "\<forall>d \<in> set (replicate 11 [0]). frameEnergy d = - 10"
    by (simp_all add: frameEnergy_zero)
  have size: "10 < energyHistorySize liveSession"
    by (simp add: liveSession_simps)
  show ?thesis
    using noise_estimate_of_constant_stream
            [OF calm_liveSession liveSession_simps(1) liveSession_simps(5) size c12,
             of accumulating "[0]"]
      noise_estimate_of_constant_stream
            [OF calm_liveSession liveSession_simps(1) liveSession_simps(5) size c11,
             of accumulating "[0]"]
      calm_liveSession
    by (simp add: liveSession_simps accumulating_simps frameEnergy_zero del: run.simps)
qed

text \<open>
  The claim as stated fails at 11 frames, which is more than 10: after eleven frames of
  digital silence the history holds eleven entries \<open>- 10\<close>, whose tenth-percentile
  value is \<open>- 10\<close>, and the estimate is still the initial \<open>- 6\<close>.
\<close>

theorem noise_estimate_after_eleven_frames:
  "length (replicate 11 [0] :: frame list) = 11
   \<and> frameEnergy [0] = - 10
   \<and> energyHistory (run liveSession (replicate 11 [0])) = replicate 11 (- 10)
   \<and> tenthPercentile (energyHistory (run liveSession (replicate 11 [0]))) = - 10
   \<and> backgroundNoise (run liveSession (replicate 11 [0])) = - 6"
proof -
  have c11: "\<forall>d \<in> set (replicate 11 [0]). frameEnergy d = - 10"
    by (simp add: frameEnergy_zero)
  have start: "energyHistory liveSession = replicate 0 (- 10)"
    by (simp add: liveSession_simps)
  have hist: "energyHistory (run liveSession (replicate 11 [0])) = replicate 11 (- 10)"
    using constant_run [OF calm_liveSession liveSession_simps(1) start _ c11]
    by (simp add: liveSession_simps del: run.simps)
  have "tenthPercentile (replicate 11 (- 10)) = - 10"
    by (rule tenthPercentile_replicate) simp
  then show ?thesis
    using noise_waits [OF calm_liveSession liveSession_simps(1), of "replicate 11 [0]"] hist
    by (simp add: liveSession_simps frameEnergy_zero del: run.simps)
qed

section \<open>The confidence\<close>

lemma foldl_js_add_Num: "foldl js_add (Num a) (map Num xs) = Num (foldl (\<lambda>a b. a + b) a xs)"
  by (induction xs arbitrary: a) simp_all

lemma sum_squares_nonneg: "0 \<le> foldl (\<lambda>acc x. acc + x * x) 0 (data :: real list)"
proof -
  have "0 \<le> sum_list (map (\<lambda>x. x * x) data)"
    by (induction data) simp_all
  then show ?thesis by (simp add: foldl_add_sum_list)
qed

lemma js_energy_finite:
  assumes "data \<noteq> []"
  shows "js_log10 (js_add (js_sqrt (js_div_count
            (Num (foldl (\<lambda>acc x. acc + x * x) 0 data)) (length data))) (Num (1 / 10 ^ 10)))
         = Num (frameEnergy data)"
proof -
  let ?m = "foldl (\<lambda>acc x. acc + x * x) 0 data / real (length data)"
  have m: "0 \<le> ?m" using sum_squares_nonneg [of data] by simp
  then have "0 \<le> sqrt ?m" by simp
  then have pos: "0 < sqrt ?m + 1 / 10 ^ 10"
    by (rule add_nonneg_pos) simp
  have "js_div_count (Num (foldl (\<lambda>acc x. acc + x * x) 0 data)) (length data) = Num ?m"
    using assms by simp
  moreover have "js_sqrt (Num ?m) = Num (sqrt ?m)"
    using m by simp
  moreover have "js_log10 (Num (sqrt ?m + 1 / 10 ^ 10)) = Num (log 10 (sqrt ?m + 1 / 10 ^ 10))"
    using pos by simp
  ultimately show ?thesis
    by (simp add: frameEnergy_def Let_def)
qed

lemma updateBackgroundNoise_noise:
  "backgroundNoise (updateBackgroundNoise s) = backgroundNoise (snd (performVAD s d))"
  by (simp add: performVAD_def updateEnergyHistory_def Let_def)

lemma js_history_finite:
  "(if length (map Num (energyHistory s) @ [Num (frameEnergy d)]) > energyHistorySize s
    then tl (map Num (energyHistory s) @ [Num (frameEnergy d)])
    else map Num (energyHistory s) @ [Num (frameEnergy d)])
   = map Num (energyHistory (snd (performVAD s d)))"
  by (simp add: performVAD_history map_tl)

lemma js_recentAvg_finite:
  assumes "h \<noteq> []"
  shows "js_div_count (foldl js_add (Num 0) (drop (length (map Num h) - 5) (map Num h)))
           (length (drop (length (map Num h) - 5) (map Num h)))
         = Num (spec_recentAvg h)"
proof -
  have "0 < length h" using assms by simp
  then have "length h - (length h - 5) \<noteq> 0" by arith
  then show ?thesis
    by (simp add: drop_map foldl_js_add_Num spec_recentAvg_def mean_def lastN_drop
          foldl_plus_sum_list)
qed

lemma performVAD_js_unfold:
  assumes "data \<noteq> []" "0 < energyHistorySize s"
  shows "performVAD_js s data =
     (let noise = backgroundNoise (snd (performVAD s data));
          recentAvg = Num (spec_recentAvg (energyHistory (snd (performVAD s data))));
          threshold = js_max (Num (noise + 5 / 10)) (js_log10 (Num (vadThreshold (options s))))
      in \<lparr> isSpeechJS = js_gt recentAvg threshold
                          \<or> js_gt (Num (frameEnergy data)) (Num (noise + 3 / 10)),
            confidenceJS =
              js_min (js_max (js_div_count (js_sub recentAvg threshold) 2) (Num 0)) (Num 1),
            energyJS = recentAvg \<rparr>)"
proof -
  have ne: "energyHistory (snd (performVAD s data)) \<noteq> []"
    by (rule performVAD_history_last(1) [OF assms(2)])
  show ?thesis
    unfolding performVAD_js_def Let_def js_energy_finite [OF assms(1)] js_history_finite
      js_recentAvg_finite [OF ne] updateBackgroundNoise_noise [of s data]
    by simp
qed

lemma negativeThresholdSession_simps:
  "energyHistory negativeThresholdSession = []"
  "energyHistorySize negativeThresholdSession = 20"
  "backgroundNoise negativeThresholdSession = - 6"
  "vadThreshold (options negativeThresholdSession) = - 1"
  by (simp_all add: negativeThresholdSession_def newSession_def defaultOptions_def)

text \<open>
  Claim C7, as the code has it. For every non-empty frame, every history and noise
  estimate and every \<open>vadThreshold\<close> that is not negative (the history capacity being
  positive, as its value 20 is), the confidence returned by \<open>performVAD\<close> is a finite
  number between 0 and 1. For a positive \<open>vadThreshold\<close> it is
  \<open>clamp ((recentAvg - threshold) / 2, 0, 1)\<close> with the threshold of the specification,
  and the whole result is the one of the real-valued \<open>performVAD\<close>; for \<open>vadThreshold = 0\<close>
  the fallback is \<open>-Infinity\<close> and the threshold is the adaptive one.
\<close>

theorem confidence_clamped_on_finite_inputs:
  assumes "data \<noteq> []" and "0 < energyHistorySize s" and "0 \<le> vadThreshold (options s)"
  shows "inUnitInterval (confidenceJS (performVAD_js s data))
     \<and> (0 < vadThreshold (options s) \<longrightarrow>
          confidenceJS (performVAD_js s data) =
            Num (clamp ((spec_recentAvg (energyHistory (snd (performVAD s data)))
                         - spec_threshold (backgroundNoise (snd (performVAD s data)))
                             (vadThreshold (options s))) / 2) 0 1)
          \<and> confidenceJS (performVAD_js s data) = Num (confidence (fst (performVAD s data)))
          \<and> isSpeechJS (performVAD_js s data) = isSpeech (fst (performVAD s data))
          \<and> energyJS (performVAD_js s data) = Num (energy (fst (performVAD s data))))
     \<and> (vadThreshold (options s) = 0 \<longrightarrow>
          confidenceJS (performVAD_js s data) =
            Num (clamp ((spec_recentAvg (energyHistory (snd (performVAD s data)))
                         - (backgroundNoise (snd (performVAD s data)) + 5 / 10)) / 2) 0 1))"
proof (cases "vadThreshold (options s) = 0")
  case True
  then show ?thesis
    using clamp_unit
    by (simp add: performVAD_js_unfold [OF assms(1,2)] Let_def clamp_min_max)
next
  case False
  then have pos: "0 < vadThreshold (options s)" using assms(3) by simp
  then show ?thesis
    using clamp_unit
    by (simp add: performVAD_js_unfold [OF assms(1,2)] Let_def clamp_min_max spec_threshold_def
          performVAD_fst classify_spec spec_confidence_def spec_isSpeech_def performVAD_frame)
qed

theorem confidence_clamped_on_finite_inputs_witness:
  "0 < energyHistorySize accumulating \<and> 0 < vadThreshold (options accumulating)
   \<and> inUnitInterval (confidenceJS (performVAD_js accumulating [0]))
   \<and> confidenceJS (performVAD_js accumulating [0]) = Num 0
   \<and> confidenceJS (performVAD_js accumulating [0])
        = Num (confidence (fst (performVAD accumulating [0])))
   \<and> inUnitInterval
        (confidenceJS (performVAD_js (accumulating\<lparr>options := defaultOptions\<lparr>vadThreshold := 0\<rparr>\<rparr>) [0]))"
proof -
  let ?z = "accumulating\<lparr>options := defaultOptions\<lparr>vadThreshold := 0\<rparr>\<rparr>"
  have "frameEnergy [1] < 1"
    using frameEnergy_one_bounds by simp
  then have "(frameEnergy [1] - 10) / 2 + 3 < 0"
    by (simp add: field_simps)
  then have c0: "confidence (fst (performVAD accumulating [0])) = 0"
    by (simp add: performVAD_fst classify_spec performVAD_snd accumulating_simps
          spec_confidence_def spec_recentAvg_def spec_threshold_def mean_def lastN_def
          frameEnergy_zero log10_milli clamp_def)
  have h: "[0] \<noteq> ([] :: frame)" "0 < energyHistorySize accumulating"
    "0 \<le> vadThreshold (options accumulating)" "0 < vadThreshold (options accumulating)"
    by (simp_all add: accumulating_simps)
  have hz: "0 < energyHistorySize ?z" "0 \<le> vadThreshold (options ?z)"
    by (simp_all add: accumulating_simps)
  note a = confidence_clamped_on_finite_inputs [OF h(1,2,3)]
  have a1: "inUnitInterval (confidenceJS (performVAD_js accumulating [0]))"
    using a by blast
  have a2: "confidenceJS (performVAD_js accumulating [0])
              = Num (confidence (fst (performVAD accumulating [0])))"
    using a h(4) by blast
  have b1: "inUnitInterval (confidenceJS (performVAD_js ?z [0]))"
    using confidence_clamped_on_finite_inputs [OF h(1) hz] by blast
  show ?thesis
    using h(2,4) a1 a2 b1 by (simp only: c0)
qed

text \<open>
  The claim as stated fails. On an empty frame the mean square is \<open>0 / 0\<close>, and with a
  negative \<open>vadThreshold\<close> the fallback threshold is \<open>Math.log10\<close> of a negative number:
  either way \<open>NaN\<close> reaches \<open>Math.max\<close> and \<open>Math.min\<close>, which return it, and the
  confidence is \<open>NaN\<close>, not a number between 0 and 1.
\<close>

theorem confidence_is_NaN_on_empty_frame_or_negative_threshold:
  "confidenceJS (performVAD_js liveSession []) = NaN
   \<and> \<not> inUnitInterval (confidenceJS (performVAD_js liveSession []))
   \<and> confidenceJS (performVAD_js negativeThresholdSession [1]) = NaN
   \<and> \<not> inUnitInterval (confidenceJS (performVAD_js negativeThresholdSession [1]))"
proof -
  have e: "confidenceJS (performVAD_js liveSession []) = NaN"
    by (simp add: performVAD_js_def Let_def liveSession_simps updateBackgroundNoise_def)
  have n: "confidenceJS (performVAD_js negativeThresholdSession [1]) = NaN"
    by (simp add: performVAD_js_unfold Let_def negativeThresholdSession_simps)
  show ?thesis by (simp add: e n)
qed

end
